theory Spec2Isabelle
  imports Complex_Main "HOL-Library.Word" "HOL-Library.AList"
begin

section \<open>Dynamic values and dictionaries\<close>

text \<open>
  The package \<^verbatim>\<open>user\<close> (src/pkg/user/user.go) receives values of Go's empty interface and
  inspects them with type switches. A value is modelled by the tagged union \<open>val\<close>, one
  constructor for each dynamic type a switch of the file can tell apart:
  \<^verbatim>\<open>string\<close>, \<^verbatim>\<open>[]uint8\<close>, \<^verbatim>\<open>[]string\<close>, \<^verbatim>\<open>[]interface{}\<close>, \<^verbatim>\<open>map[string]interface{}\<close>,
  \<^verbatim>\<open>float64\<close>, \<^verbatim>\<open>int\<close>, \<^verbatim>\<open>int64\<close> and \<^verbatim>\<open>json.Number\<close>; \<open>VNil\<close> and \<open>VBool\<close> stand for the
  values that only ever reach a \<^verbatim>\<open>default\<close> branch.

  A Go map is an association list read with \<open>map_of\<close> and written with \<open>AList.update\<close>
  (an assignment \<^verbatim>\<open>m[k] = v\<close>); a nil map and an empty map are both \<open>[]\<close> except where the
  code tests for nil. Strings are byte strings. A \<^verbatim>\<open>float64\<close> is the rational it denotes
  (finite values only), \<^verbatim>\<open>int\<close> is taken as 64 bits wide.
\<close>

datatype val =
    VNil
  | VBool bool
  | VString string
  | VBytes string
  | VStrings "string list"
  | VList "val list"
  | VMap "(string \<times> val) list"
  | VFloat64 rat
  | VInt "64 word"
  | VInt64 "64 word"
  | VNumber string

type_synonym gomap = "(string \<times> val) list"

section \<open>Errors\<close>

text \<open>
  The error values of package \<^verbatim>\<open>errors\<close> keep the names the source gives them; the arguments
  of \<^verbatim>\<open>WithArgs\<close> are the constructor's arguments. \<open>Errorf\<close> carries the formatted message
  of a \<^verbatim>\<open>fmt.Errorf\<close> call, \<open>ErrDecode\<close> is whatever the JSON decoder or the argument
  tokenizer reports, and \<open>PanicIndexOutOfRange\<close> is the run-time panic of an index
  expression on an empty slice.
\<close>

datatype error =
    ErrInvalidUserDataType
  | ErrDecode string
  | ErrInvalidAudience val
  | ErrInvalidAudienceType val
  | ErrInvalidClaimExpiresAt val
  | ErrInvalidIDClaimType val
  | ErrInvalidClaimIssuedAt val
  | ErrInvalidIssuerClaimType val
  | ErrInvalidClaimNotBefore val
  | ErrInvalidSubjectClaimType val
  | ErrInvalidEmailClaimType string val
  | ErrInvalidNameClaimType val
  | ErrInvalidRole val
  | ErrInvalidRoleType val
  | ErrInvalidAppMetadataRoleType val
  | ErrInvalidScope val
  | ErrInvalidScopeType val
  | ErrInvalidAccessListPath val
  | ErrInvalidOriginClaimType val
  | ErrInvalidOrg val
  | ErrInvalidOrgType val
  | ErrInvalidAddrType val
  | ErrInvalidPictureClaimType val
  | ErrInvalidMetadataClaimType val
  | ErrExpiredToken
  | ErrCheckpointInvalidType val val
  | ErrFrontendLinkInvalidType val val
  | ErrCheckpointInvalidInput string error
  | ErrCheckpointEmpty
  | Errorf string
  | PanicIndexOutOfRange

section \<open>The records of the package\<close>

record Authenticator =
  Name :: string
  Realm :: string
  Method :: string
  TempSecret :: string
  TempSessionID :: string
  URL :: string

record Checkpoint =
  ID :: int
  Name :: string
  Type :: string
  Parameters :: string
  Passed :: bool
  FailedAttempts :: int

record AccessListClaim =
  Paths :: "gomap option"

record Claims =
  Audience :: "string list"
  ExpiresAt :: "64 word"
  ID :: string
  IssuedAt :: "64 word"
  Issuer :: string
  NotBefore :: "64 word"
  Subject :: string
  Name :: string
  Email :: string
  Roles :: "string list"
  Origin :: string
  Scopes :: "string list"
  Organizations :: "string list"
  AccessList :: "AccessListClaim option"
  Address :: string
  PictureURL :: string
  Metadata :: gomap
  Username :: string

record User =
  Claims :: "Claims option"
  Token :: string
  TokenName :: string
  TokenSource :: string
  Authenticator :: Authenticator
  Checkpoints :: "Checkpoint list"
  Authorized :: bool
  FrontendLinks :: "string list"
  Locked :: bool
  requestHeaders :: "(string \<times> string) list"
  requestIdentity :: gomap
  Cached :: bool
  mkv :: gomap
  tkv :: gomap
  rkv :: gomap

text \<open>The zero values \<^verbatim>\<open>&Claims{}\<close>, \<^verbatim>\<open>&Checkpoint{}\<close> and \<^verbatim>\<open>&User{}\<close>.\<close>

definition Claims0 :: Claims where
  "Claims0 = \<lparr>Audience = [], ExpiresAt = 0, ID = [], IssuedAt = 0, Issuer = [],
     NotBefore = 0, Subject = [], Name = [], Email = [], Roles = [], Origin = [],
     Scopes = [], Organizations = [], AccessList = None, Address = [], PictureURL = [],
     Metadata = [], Username = []\<rparr>"

definition Checkpoint0 :: Checkpoint where
  "Checkpoint0 = \<lparr>Checkpoint.ID = 0, Checkpoint.Name = [], Type = [], Parameters = [],
     Passed = False, FailedAttempts = 0\<rparr>"

definition User0 :: User where
  "User0 = \<lparr>Claims = None, Token = [], TokenName = [], TokenSource = [],
     Authenticator = \<lparr>Authenticator.Name = [], Realm = [], Method = [], TempSecret = [],
       TempSessionID = [], URL = []\<rparr>,
     Checkpoints = [], Authorized = False, FrontendLinks = [], Locked = False,
     requestHeaders = [], requestIdentity = [], Cached = False,
     mkv = [], tkv = [], rkv = []\<rparr>"

section \<open>Claims.Valid\<close>

text \<open>
  \<^verbatim>\<open>func (c Claims) Valid() error\<close>, lines 112-117. The reading of the clock,
  \<^verbatim>\<open>time.Now().Unix()\<close>, is the argument \<open>now\<close>; the comparison is Go's signed comparison of
  two \<^verbatim>\<open>int64\<close>. \<open>None\<close> is the nil error.
\<close>

definition Valid :: "64 word \<Rightarrow> Claims \<Rightarrow> error option" where
  "Valid now c = (if ExpiresAt c <s now then Some ErrExpiredToken else None)"

section \<open>Role queries\<close>

text \<open>\<^verbatim>\<open>HasRole\<close> (lines 219-226) and \<^verbatim>\<open>HasRoles\<close> (lines 229-236): loops with an early return.\<close>

fun HasRole :: "User \<Rightarrow> string list \<Rightarrow> bool" where
  "HasRole u [] = False"
| "HasRole u (role # roles) =
     (if map_of (rkv u) role \<noteq> None then True else HasRole u roles)"

fun HasRoles :: "User \<Rightarrow> string list \<Rightarrow> bool" where
  "HasRoles u [] = True"
| "HasRoles u (role # roles) =
     (if map_of (rkv u) role = None then False else HasRoles u roles)"

section \<open>Library functions the package calls\<close>

text \<open>
  \<^verbatim>\<open>strings.Split(s, " ")\<close>: the pieces of \<open>s\<close> between single spaces; the empty string
  gives one empty piece. \<^verbatim>\<open>strings.Join(xs, " ")\<close> is its inverse on the pieces.
\<close>

fun Split :: "string \<Rightarrow> string list" where
  "Split [] = [[]]"
| "Split (ch # s) =
     (if ch = CHR '' '' then [] # Split s
      else (case Split s of [] \<Rightarrow> [[ch]] | w # ws \<Rightarrow> (ch # w) # ws))"

fun Join :: "string list \<Rightarrow> string" where
  "Join [] = []"
| "Join [x] = x"
| "Join (x # y # ys) = x @ '' '' @ Join (y # ys)"

text \<open>
  The conversion \<^verbatim>\<open>int64(f)\<close> of a \<^verbatim>\<open>float64\<close> discards the fraction; outside the range
  of \<^verbatim>\<open>int64\<close> the language leaves the result to the implementation, and the model returns
  the least \<^verbatim>\<open>int64\<close>, as amd64 does.
\<close>

definition int64_of_float64 :: "rat \<Rightarrow> 64 word" where
  "int64_of_float64 x =
     (let t = (if x < 0 then \<lceil>x\<rceil> else \<lfloor>x\<rfloor>)
      in if - (2 ^ 63) \<le> t \<and> t < 2 ^ 63 then word_of_int t else word_of_int (- (2 ^ 63)))"

text \<open>
  \<^verbatim>\<open>json.Number.Int64\<close> is \<^verbatim>\<open>strconv.ParseInt(s, 10, 64)\<close>; the source drops its error
  (\<^verbatim>\<open>v, _ := exp.Int64()\<close>), so what remains is the value: 0 on a syntax error, the nearest
  bound on a range error.
\<close>

definition is_digit :: "char \<Rightarrow> bool" where
  "is_digit ch = (48 \<le> (of_char ch :: nat) \<and> (of_char ch :: nat) \<le> 57)"

definition digits_value :: "string \<Rightarrow> int" where
  "digits_value ds = foldl (\<lambda>n ch. 10 * n + (int (of_char ch) - 48)) 0 ds"

definition Number_Int64 :: "string \<Rightarrow> 64 word" where
  "Number_Int64 s =
     (let (neg, ds) = (case s of [] \<Rightarrow> (False, [])
                       | ch # r \<Rightarrow> if ch = CHR ''-'' then (True, r)
                                  else if ch = CHR ''+'' then (False, r) else (False, s))
      in if ds = [] \<or> \<not> list_all is_digit ds then 0
         else let n = digits_value ds
              in if neg then (if 2 ^ 63 < n then word_of_int (- (2 ^ 63)) else word_of_int (- n))
                 else (if 2 ^ 63 \<le> n then word_of_int (2 ^ 63 - 1) else word_of_int n))"

section \<open>NewUser\<close>

text \<open>
  \<^verbatim>\<open>func NewUser(data interface{}) (*User, error)\<close>, lines 239-713. The function is one long
  sequence of blocks, one per recognised field, each of which either returns an error or
  goes on with the local variables \<^verbatim>\<open>c\<close>, \<^verbatim>\<open>mkv\<close> and \<^verbatim>\<open>tkv\<close> updated. A block is a function
  from the dictionary \<open>m\<close> and the triple \<open>(c, mkv, tkv)\<close> to an error or the new triple; the
  blocks are run in the order of the source by \<open>run_blocks\<close>, which stops at the first
  error as the \<^verbatim>\<open>return nil, err\<close> of the source does.
\<close>

type_synonym locals = "Claims \<times> gomap \<times> gomap"

fun run_blocks :: "(locals \<Rightarrow> error + locals) list \<Rightarrow> locals \<Rightarrow> error + locals" where
  "run_blocks [] s = Inr s"
| "run_blocks (b # bs) s = (case b s of Inl e \<Rightarrow> Inl e | Inr s' \<Rightarrow> run_blocks bs s')"

text \<open>
  The loop over a \<^verbatim>\<open>[]interface{}\<close> that appends every string element to a slice and returns
  the error \<open>err x\<close> at the first element \<open>x\<close> that is not a string (lines 271-278, 426-433,
  459-466, 487-494, 508-515, 617-624), and the loop over a \<^verbatim>\<open>[]string\<close> that appends every
  element.
\<close>

fun append_strings :: "(val \<Rightarrow> error) \<Rightarrow> string list \<Rightarrow> val list \<Rightarrow> error + string list" where
  "append_strings err acc [] = Inr acc"
| "append_strings err acc (x # xs) =
     (case x of VString s \<Rightarrow> append_strings err (acc @ [s]) xs | _ \<Rightarrow> Inl (err x))"

fun append_all :: "string list \<Rightarrow> string list \<Rightarrow> string list" where
  "append_all acc [] = acc"
| "append_all acc (x # xs) = append_all (acc @ [x]) xs"

text \<open>Lines 266-295: \<^verbatim>\<open>aud\<close>.\<close>

definition blk_aud :: "gomap \<Rightarrow> locals \<Rightarrow> error + locals" where
  "blk_aud m = (\<lambda>(c, mkv, tkv).
     case map_of m ''aud'' of
       None \<Rightarrow> Inr (c, mkv, tkv)
     | Some audiences \<Rightarrow>
         (case (case audiences of
                  VString s \<Rightarrow> Inr (Audience c @ [s])
                | VList xs \<Rightarrow> append_strings ErrInvalidAudience (Audience c) xs
                | VStrings xs \<Rightarrow> Inr (append_all (Audience c) xs)
                | _ \<Rightarrow> Inl (ErrInvalidAudienceType audiences)) of
            Inl e \<Rightarrow> Inl e
          | Inr aud \<Rightarrow>
              (case aud of
                 [] \<Rightarrow> Inr (c\<lparr>Audience := aud\<rparr>, mkv, tkv)
               | [x] \<Rightarrow> Inr (c\<lparr>Audience := aud\<rparr>,
                            AList.update ''aud'' (VString x) mkv,
                            AList.update ''aud'' (VStrings aud) tkv)
               | _ \<Rightarrow> Inr (c\<lparr>Audience := aud\<rparr>,
                          AList.update ''aud'' (VStrings aud) mkv,
                          AList.update ''aud'' (VStrings aud) tkv))))"

text \<open>
  Lines 297-312, 325-340, 353-368: the time stamps \<^verbatim>\<open>exp\<close>, \<^verbatim>\<open>iat\<close> and \<^verbatim>\<open>nbf\<close>. The three
  blocks hold the same type switch, \<open>int64_of\<close>; \<open>None\<close> is its \<^verbatim>\<open>default\<close> branch.
\<close>

definition int64_of :: "val \<Rightarrow> 64 word option" where
  "int64_of v = (case v of
       VFloat64 f \<Rightarrow> Some (int64_of_float64 f)
     | VInt i \<Rightarrow> Some i
     | VInt64 i \<Rightarrow> Some i
     | VNumber n \<Rightarrow> Some (Number_Int64 n)
     | _ \<Rightarrow> None)"

definition blk_exp :: "gomap \<Rightarrow> locals \<Rightarrow> error + locals" where
  "blk_exp m = (\<lambda>(c, mkv, tkv).
     case map_of m ''exp'' of
       None \<Rightarrow> Inr (c, mkv, tkv)
     | Some v \<Rightarrow>
         (case int64_of v of
            None \<Rightarrow> Inl (ErrInvalidClaimExpiresAt v)
          | Some t \<Rightarrow> Inr (c\<lparr>ExpiresAt := t\<rparr>, AList.update ''exp'' (VInt64 t) mkv, tkv)))"

text \<open>Lines 314-323: \<^verbatim>\<open>jti\<close>.\<close>

definition blk_jti :: "gomap \<Rightarrow> locals \<Rightarrow> error + locals" where
  "blk_jti m = (\<lambda>(c, mkv, tkv).
     case map_of m ''jti'' of
       None \<Rightarrow> Inr (c, mkv, tkv)
     | Some v \<Rightarrow>
         (case v of
            VString s \<Rightarrow> Inr (c\<lparr>ID := s\<rparr>, AList.update ''jti'' (VString s) mkv,
                              AList.update ''jti'' (VString s) tkv)
          | _ \<Rightarrow> Inl (ErrInvalidIDClaimType v)))"

definition blk_iat :: "gomap \<Rightarrow> locals \<Rightarrow> error + locals" where
  "blk_iat m = (\<lambda>(c, mkv, tkv).
     case map_of m ''iat'' of
       None \<Rightarrow> Inr (c, mkv, tkv)
     | Some v \<Rightarrow>
         (case int64_of v of
            None \<Rightarrow> Inl (ErrInvalidClaimIssuedAt v)
          | Some t \<Rightarrow> Inr (c\<lparr>IssuedAt := t\<rparr>, AList.update ''iat'' (VInt64 t) mkv, tkv)))"

text \<open>Lines 342-351: \<^verbatim>\<open>iss\<close>.\<close>

definition blk_iss :: "gomap \<Rightarrow> locals \<Rightarrow> error + locals" where
  "blk_iss m = (\<lambda>(c, mkv, tkv).
     case map_of m ''iss'' of
       None \<Rightarrow> Inr (c, mkv, tkv)
     | Some v \<Rightarrow>
         (case v of
            VString s \<Rightarrow> Inr (c\<lparr>Issuer := s\<rparr>, AList.update ''iss'' (VString s) mkv,
                              AList.update ''iss'' (VString s) tkv)
          | _ \<Rightarrow> Inl (ErrInvalidIssuerClaimType v)))"

definition blk_nbf :: "gomap \<Rightarrow> locals \<Rightarrow> error + locals" where
  "blk_nbf m = (\<lambda>(c, mkv, tkv).
     case map_of m ''nbf'' of
       None \<Rightarrow> Inr (c, mkv, tkv)
     | Some v \<Rightarrow>
         (case int64_of v of
            None \<Rightarrow> Inl (ErrInvalidClaimNotBefore v)
          | Some t \<Rightarrow> Inr (c\<lparr>NotBefore := t\<rparr>, AList.update ''nbf'' (VInt64 t) mkv, tkv)))"

text \<open>Lines 370-379: \<^verbatim>\<open>sub\<close>.\<close>

definition blk_sub :: "gomap \<Rightarrow> locals \<Rightarrow> error + locals" where
  "blk_sub m = (\<lambda>(c, mkv, tkv).
     case map_of m ''sub'' of
       None \<Rightarrow> Inr (c, mkv, tkv)
     | Some v \<Rightarrow>
         (case v of
            VString s \<Rightarrow> Inr (c\<lparr>Subject := s\<rparr>, AList.update ''sub'' (VString s) mkv,
                              AList.update ''sub'' (VString s) tkv)
          | _ \<Rightarrow> Inl (ErrInvalidSubjectClaimType v)))"

text \<open>
  Lines 381-394: the loop over the keys \<^verbatim>\<open>email\<close> and \<^verbatim>\<open>mail\<close>, then the projections, written
  only when the address is not empty.
\<close>

fun email_keys :: "string list \<Rightarrow> gomap \<Rightarrow> Claims \<Rightarrow> error + Claims" where
  "email_keys [] m c = Inr c"
| "email_keys (ma # mas) m c =
     (case map_of m ma of
        None \<Rightarrow> email_keys mas m c
      | Some v \<Rightarrow>
          (case v of
             VString s \<Rightarrow> email_keys mas m (c\<lparr>Email := s\<rparr>)
           | _ \<Rightarrow> Inl (ErrInvalidEmailClaimType ma v)))"

definition blk_email :: "gomap \<Rightarrow> locals \<Rightarrow> error + locals" where
  "blk_email m = (\<lambda>(c, mkv, tkv).
     case email_keys [''email'', ''mail''] m c of
       Inl e \<Rightarrow> Inl e
     | Inr c' \<Rightarrow>
         if Email c' \<noteq> []
         then Inr (c', AList.update ''mail'' (VString (Email c')) mkv,
                   AList.update ''mail'' (VString (Email c')) tkv)
         else Inr (c', mkv, tkv))"

text \<open>
  Lines 396-420: \<^verbatim>\<open>name\<close>. \<open>pack_names\<close> is the loop of lines 402-413 over a generic list:
  an element equal to the e-mail address is skipped, an element that is not a string is
  the error, which carries the whole value of the field.
\<close>

fun pack_names :: "val \<Rightarrow> string \<Rightarrow> string list \<Rightarrow> val list \<Rightarrow> error + string list" where
  "pack_names whole email packedNames [] = Inr packedNames"
| "pack_names whole email packedNames (n # ns) =
     (case n of
        VString parsedName \<Rightarrow>
          if parsedName = email then pack_names whole email packedNames ns
          else pack_names whole email (packedNames @ [parsedName]) ns
      | _ \<Rightarrow> Inl (ErrInvalidNameClaimType whole))"

definition blk_name :: "gomap \<Rightarrow> locals \<Rightarrow> error + locals" where
  "blk_name m = (\<lambda>(c, mkv, tkv).
     case map_of m ''name'' of
       None \<Rightarrow> Inr (c, mkv, tkv)
     | Some names \<Rightarrow>
         (case (case names of
                  VString s \<Rightarrow> Inr s
                | VList ns \<Rightarrow>
                    (case pack_names names (Email c) [] ns of
                       Inl e \<Rightarrow> Inl e
                     | Inr packedNames \<Rightarrow> Inr (Join packedNames))
                | _ \<Rightarrow> Inl (ErrInvalidNameClaimType names)) of
            Inl e \<Rightarrow> Inl e
          | Inr n \<Rightarrow> Inr (c\<lparr>Name := n\<rparr>, AList.update ''name'' (VString n) mkv,
                         AList.update ''name'' (VString n) tkv)))"

text \<open>
  Lines 422-446: the loop over the keys \<^verbatim>\<open>roles\<close>, \<^verbatim>\<open>role\<close>, \<^verbatim>\<open>groups\<close> and \<^verbatim>\<open>group\<close>. The
  loop reads and writes \<^verbatim>\<open>c.Roles\<close> only, so it is a function of that slice.
\<close>

fun role_keys :: "string list \<Rightarrow> gomap \<Rightarrow> string list \<Rightarrow> error + string list" where
  "role_keys [] m roles = Inr roles"
| "role_keys (ra # ras) m roles =
     (case map_of m ra of
        None \<Rightarrow> role_keys ras m roles
      | Some mra \<Rightarrow>
          (case (case mra of
                   VList xs \<Rightarrow> append_strings ErrInvalidRole roles xs
                 | VStrings xs \<Rightarrow> Inr (append_all roles xs)
                 | VString s \<Rightarrow> Inr (append_all roles (Split s))
                 | _ \<Rightarrow> Inl (ErrInvalidRoleType mra)) of
             Inl e \<Rightarrow> Inl e
           | Inr roles' \<Rightarrow> role_keys ras m roles'))"

definition blk_roles :: "gomap \<Rightarrow> locals \<Rightarrow> error + locals" where
  "blk_roles m = (\<lambda>(c, mkv, tkv).
     case role_keys [''roles'', ''role'', ''groups'', ''group''] m (Roles c) of
       Inl e \<Rightarrow> Inl e
     | Inr roles \<Rightarrow> Inr (c\<lparr>Roles := roles\<rparr>, mkv, tkv))"

text \<open>
  Lines 448-478: the roles nested under \<^verbatim>\<open>app_metadata\<close>, \<^verbatim>\<open>authorization\<close>, \<^verbatim>\<open>roles\<close>. The
  two outer type switches have no \<^verbatim>\<open>default\<close> branch; the innermost has one.
\<close>

definition app_metadata_roles :: "gomap \<Rightarrow> string list \<Rightarrow> error + string list" where
  "app_metadata_roles m roles =
     (case map_of m ''app_metadata'' of
        None \<Rightarrow> Inr roles
      | Some v \<Rightarrow>
          (case v of
             VMap appMetadata \<Rightarrow>
               (case map_of appMetadata ''authorization'' of
                  None \<Rightarrow> Inr roles
                | Some a \<Rightarrow>
                    (case a of
                       VMap appMetadataAuthz \<Rightarrow>
                         (case map_of appMetadataAuthz ''roles'' of
                            None \<Rightarrow> Inr roles
                          | Some r \<Rightarrow>
                              (case r of
                                 VList xs \<Rightarrow> append_strings ErrInvalidRole roles xs
                               | VStrings xs \<Rightarrow> Inr (append_all roles xs)
                               | _ \<Rightarrow> Inl (ErrInvalidAppMetadataRoleType r)))
                     | _ \<Rightarrow> Inr roles))
           | _ \<Rightarrow> Inr roles))"

definition blk_app_metadata :: "gomap \<Rightarrow> locals \<Rightarrow> error + locals" where
  "blk_app_metadata m = (\<lambda>(c, mkv, tkv).
     case app_metadata_roles m (Roles c) of
       Inl e \<Rightarrow> Inl e
     | Inr roles \<Rightarrow> Inr (c\<lparr>Roles := roles\<rparr>, mkv, tkv))"

text \<open>
  Lines 480-502: the roles nested under \<^verbatim>\<open>realm_access\<close>, \<^verbatim>\<open>roles\<close>. Neither type switch on
  a container has a \<^verbatim>\<open>default\<close> branch.
\<close>

definition realm_access_roles :: "gomap \<Rightarrow> string list \<Rightarrow> error + string list" where
  "realm_access_roles m roles =
     (case map_of m ''realm_access'' of
        None \<Rightarrow> Inr roles
      | Some v \<Rightarrow>
          (case v of
             VMap realmAccess \<Rightarrow>
               (case map_of realmAccess ''roles'' of
                  None \<Rightarrow> Inr roles
                | Some r \<Rightarrow>
                    (case r of
                       VList xs \<Rightarrow> append_strings ErrInvalidRole roles xs
                     | VStrings xs \<Rightarrow> Inr (append_all roles xs)
                     | _ \<Rightarrow> Inr roles))
           | _ \<Rightarrow> Inr roles))"

definition blk_realm_access :: "gomap \<Rightarrow> locals \<Rightarrow> error + locals" where
  "blk_realm_access m = (\<lambda>(c, mkv, tkv).
     case realm_access_roles m (Roles c) of
       Inl e \<Rightarrow> Inl e
     | Inr roles \<Rightarrow> Inr (c\<lparr>Roles := roles\<rparr>, mkv, tkv))"

text \<open>Lines 504-533: the loop over the keys \<^verbatim>\<open>scopes\<close> and \<^verbatim>\<open>scope\<close>, then the projections.\<close>

fun scope_keys :: "string list \<Rightarrow> gomap \<Rightarrow> string list \<Rightarrow> error + string list" where
  "scope_keys [] m scopes = Inr scopes"
| "scope_keys (ra # ras) m scopes =
     (case map_of m ra of
        None \<Rightarrow> scope_keys ras m scopes
      | Some v \<Rightarrow>
          (case (case v of
                   VList xs \<Rightarrow> append_strings ErrInvalidScope scopes xs
                 | VStrings xs \<Rightarrow> Inr (append_all scopes xs)
                 | VString s \<Rightarrow> Inr (append_all scopes (Split s))
                 | _ \<Rightarrow> Inl (ErrInvalidScopeType v)) of
             Inl e \<Rightarrow> Inl e
           | Inr scopes' \<Rightarrow> scope_keys ras m scopes'))"

definition blk_scopes :: "gomap \<Rightarrow> locals \<Rightarrow> error + locals" where
  "blk_scopes m = (\<lambda>(c, mkv, tkv).
     case scope_keys [''scopes'', ''scope''] m (Scopes c) of
       Inl e \<Rightarrow> Inl e
     | Inr scopes \<Rightarrow>
         if 0 < length scopes
         then Inr (c\<lparr>Scopes := scopes\<rparr>, AList.update ''scopes'' (VString (Join scopes)) mkv,
                   AList.update ''scopes'' (VStrings scopes) tkv)
         else Inr (c\<lparr>Scopes := scopes\<rparr>, mkv, tkv))"

text \<open>
  Lines 542-548 (and 565-571, 578-584): one access path is entered; the access list and its
  map are made when they are still nil.
\<close>

definition add_path :: "string \<Rightarrow> Claims \<Rightarrow> Claims" where
  "add_path path c =
     (let al = (case AccessList c of None \<Rightarrow> \<lparr>Paths = None\<rparr> | Some a \<Rightarrow> a);
          ps = (case Paths al of None \<Rightarrow> [] | Some ps \<Rightarrow> ps)
      in c\<lparr>AccessList := Some (al\<lparr>Paths := Some (AList.update path (VMap []) ps)\<rparr>)\<rparr>)"

fun add_paths :: "val list \<Rightarrow> Claims \<Rightarrow> error + Claims" where
  "add_paths [] c = Inr c"
| "add_paths (path # paths) c =
     (case path of
        VString p \<Rightarrow> add_paths paths (add_path p c)
      | _ \<Rightarrow> Inl (ErrInvalidAccessListPath path))"

text \<open>Lines 535-554: the top-level \<^verbatim>\<open>paths\<close>; the type switch has no \<^verbatim>\<open>default\<close> branch.\<close>

definition blk_paths :: "gomap \<Rightarrow> locals \<Rightarrow> error + locals" where
  "blk_paths m = (\<lambda>(c, mkv, tkv).
     case map_of m ''paths'' of
       None \<Rightarrow> Inr (c, mkv, tkv)
     | Some v \<Rightarrow>
         (case v of
            VList paths \<Rightarrow>
              (case add_paths paths c of Inl e \<Rightarrow> Inl e | Inr c' \<Rightarrow> Inr (c', mkv, tkv))
          | _ \<Rightarrow> Inr (c, mkv, tkv)))"

text \<open>
  Lines 556-592: \<^verbatim>\<open>acl\<close>, \<^verbatim>\<open>paths\<close>, a dictionary whose keys are the paths (the \<^verbatim>\<open>range\<close>
  over the map is a fold over its keys) or a list of paths.
\<close>

definition blk_acl :: "gomap \<Rightarrow> locals \<Rightarrow> error + locals" where
  "blk_acl m = (\<lambda>(c, mkv, tkv).
     case map_of m ''acl'' of
       None \<Rightarrow> Inr (c, mkv, tkv)
     | Some v \<Rightarrow>
         (case v of
            VMap acl \<Rightarrow>
              (case map_of acl ''paths'' of
                 None \<Rightarrow> Inr (c, mkv, tkv)
               | Some ps \<Rightarrow>
                   (case ps of
                      VMap paths \<Rightarrow> Inr (fold add_path (map fst paths) c, mkv, tkv)
                    | VList paths \<Rightarrow>
                        (case add_paths paths c of
                           Inl e \<Rightarrow> Inl e
                         | Inr c' \<Rightarrow> Inr (c', mkv, tkv))
                    | _ \<Rightarrow> Inr (c, mkv, tkv)))
          | _ \<Rightarrow> Inr (c, mkv, tkv)))"

text \<open>Lines 594-601: the access list goes to both projections.\<close>

definition blk_acl_projections :: "locals \<Rightarrow> error + locals" where
  "blk_acl_projections = (\<lambda>(c, mkv, tkv).
     case AccessList c of
       None \<Rightarrow> Inr (c, mkv, tkv)
     | Some al \<Rightarrow>
         (case Paths al of
            None \<Rightarrow> Inr (c, mkv, tkv)
          | Some ps \<Rightarrow>
              Inr (c, AList.update ''acl'' (VMap [(''paths'', VMap ps)]) mkv,
                   AList.update ''acl'' (VMap [(''paths'', VMap ps)]) tkv)))"

text \<open>Lines 603-612: \<^verbatim>\<open>origin\<close>.\<close>

definition blk_origin :: "gomap \<Rightarrow> locals \<Rightarrow> error + locals" where
  "blk_origin m = (\<lambda>(c, mkv, tkv).
     case map_of m ''origin'' of
       None \<Rightarrow> Inr (c, mkv, tkv)
     | Some v \<Rightarrow>
         (case v of
            VString s \<Rightarrow> Inr (c\<lparr>Origin := s\<rparr>, AList.update ''origin'' (VString s) mkv,
                              AList.update ''origin'' (VString s) tkv)
          | _ \<Rightarrow> Inl (ErrInvalidOriginClaimType v)))"

text \<open>Lines 614-638: \<^verbatim>\<open>org\<close>.\<close>

definition blk_org :: "gomap \<Rightarrow> locals \<Rightarrow> error + locals" where
  "blk_org m = (\<lambda>(c, mkv, tkv).
     case map_of m ''org'' of
       None \<Rightarrow> Inr (c, mkv, tkv)
     | Some orgs \<Rightarrow>
         (case (case orgs of
                  VList xs \<Rightarrow> append_strings ErrInvalidOrg (Organizations c) xs
                | VStrings xs \<Rightarrow> Inr (append_all (Organizations c) xs)
                | VString s \<Rightarrow> Inr (append_all (Organizations c) (Split s))
                | _ \<Rightarrow> Inl (ErrInvalidOrgType orgs)) of
            Inl e \<Rightarrow> Inl e
          | Inr os \<Rightarrow> Inr (c\<lparr>Organizations := os\<rparr>, AList.update ''org'' (VString (Join os)) mkv,
                          AList.update ''org'' (VStrings os) tkv)))"

text \<open>Lines 640-649: \<^verbatim>\<open>addr\<close>.\<close>

definition blk_addr :: "gomap \<Rightarrow> locals \<Rightarrow> error + locals" where
  "blk_addr m = (\<lambda>(c, mkv, tkv).
     case map_of m ''addr'' of
       None \<Rightarrow> Inr (c, mkv, tkv)
     | Some v \<Rightarrow>
         (case v of
            VString s \<Rightarrow> Inr (c\<lparr>Address := s\<rparr>, AList.update ''addr'' (VString s) mkv,
                              AList.update ''addr'' (VString s) tkv)
          | _ \<Rightarrow> Inl (ErrInvalidAddrType v)))"

text \<open>Lines 651-659: \<^verbatim>\<open>picture\<close>, in the full projection only.\<close>

definition blk_picture :: "gomap \<Rightarrow> locals \<Rightarrow> error + locals" where
  "blk_picture m = (\<lambda>(c, mkv, tkv).
     case map_of m ''picture'' of
       None \<Rightarrow> Inr (c, mkv, tkv)
     | Some v \<Rightarrow>
         (case v of
            VString s \<Rightarrow> Inr (c\<lparr>PictureURL := s\<rparr>, AList.update ''picture'' (VString s) mkv, tkv)
          | _ \<Rightarrow> Inl (ErrInvalidPictureClaimType v)))"

text \<open>Lines 661-669: \<^verbatim>\<open>metadata\<close>, in the full projection only.\<close>

definition blk_metadata :: "gomap \<Rightarrow> locals \<Rightarrow> error + locals" where
  "blk_metadata m = (\<lambda>(c, mkv, tkv).
     case map_of m ''metadata'' of
       None \<Rightarrow> Inr (c, mkv, tkv)
     | Some v \<Rightarrow>
         (case v of
            VMap md \<Rightarrow> Inr (c\<lparr>Metadata := md\<rparr>, AList.update ''metadata'' (VMap md) mkv, tkv)
          | _ \<Rightarrow> Inl (ErrInvalidMetadataClaimType v)))"

text \<open>
  Lines 671-679: \<^verbatim>\<open>username\<close>, in the full projection only. The error of the \<^verbatim>\<open>default\<close>
  branch is the one line 676 names, \<^verbatim>\<open>errors.ErrInvalidMetadataClaimType\<close>.
\<close>

definition blk_username :: "gomap \<Rightarrow> locals \<Rightarrow> error + locals" where
  "blk_username m = (\<lambda>(c, mkv, tkv).
     case map_of m ''username'' of
       None \<Rightarrow> Inr (c, mkv, tkv)
     | Some v \<Rightarrow>
         (case v of
            VString s \<Rightarrow> Inr (c\<lparr>Username := s\<rparr>, AList.update ''username'' (VString s) mkv, tkv)
          | _ \<Rightarrow> Inl (ErrInvalidMetadataClaimType v)))"

text \<open>
  Lines 681-712: the default roles, the roles in both projections, the role index and the
  user that is returned.
\<close>

definition finish :: "locals \<Rightarrow> User" where
  "finish = (\<lambda>(c, mkv, tkv).
     let roles = (if length (Roles c) = 0 then (Roles c @ [''anonymous'']) @ [''guest'']
                  else Roles c);
         c' = c\<lparr>Roles := roles\<rparr>
     in User0\<lparr>rkv := fold (\<lambda>roleName r. AList.update roleName (VBool True) r) roles [],
              Claims := Some c',
              mkv := AList.update ''roles'' (VStrings roles) mkv,
              tkv := AList.update ''roles'' (VStrings roles) tkv\<rparr>)"

text \<open>The blocks in the order of the source.\<close>

definition blocks :: "gomap \<Rightarrow> (locals \<Rightarrow> error + locals) list" where
  "blocks m = [blk_aud m, blk_exp m, blk_jti m, blk_iat m, blk_iss m, blk_nbf m, blk_sub m,
     blk_email m, blk_name m, blk_roles m, blk_app_metadata m, blk_realm_access m,
     blk_scopes m, blk_paths m, blk_acl m, blk_acl_projections, blk_origin m, blk_org m,
     blk_addr m, blk_picture m, blk_metadata m, blk_username m]"

text \<open>Lines 258-713: the function from the dictionary \<open>m\<close> on.\<close>

definition NewUserMap :: "gomap \<Rightarrow> error + User" where
  "NewUserMap m =
     (if length m = 0 then Inl ErrInvalidUserDataType
      else (case run_blocks (blocks m) (Claims0, [], []) of
              Inl e \<Rightarrow> Inl e
            | Inr s \<Rightarrow> Inr (finish s)))"

text \<open>
  Lines 239-256: the type switch on the argument. \<^verbatim>\<open>json.Unmarshal\<close> into a fresh map is the
  argument \<open>unmarshal\<close>; a value of any other type leaves \<open>m\<close> nil.
\<close>

definition NewUser :: "(string \<Rightarrow> error + gomap) \<Rightarrow> val \<Rightarrow> error + User" where
  "NewUser unmarshal data =
     (case data of
        VString v \<Rightarrow> (case unmarshal v of Inl err \<Rightarrow> Inl err | Inr m \<Rightarrow> NewUserMap m)
      | VBytes v \<Rightarrow> (case unmarshal v of Inl err \<Rightarrow> Inl err | Inr m \<Rightarrow> NewUserMap m)
      | VMap v \<Rightarrow> NewUserMap v
      | _ \<Rightarrow> NewUserMap [])"

section \<open>AddFrontendLinks\<close>

text \<open>
  \<^verbatim>\<open>func (u *User) AddFrontendLinks(v interface{}) error\<close>, lines 716-750. The method changes
  the user it is called on, so the model returns the error (\<open>None\<close> is nil) together with
  the user after the call. \<open>link_entries\<close> is the type switch of lines 717-734.
\<close>

definition link_entries :: "val \<Rightarrow> error + string list" where
  "link_entries v =
     (case v of
        VString data \<Rightarrow> Inr ([] @ [data])
      | VStrings data \<Rightarrow> Inr data
      | VList data \<Rightarrow> append_strings (\<lambda>entry. ErrCheckpointInvalidType v v) [] data
      | _ \<Rightarrow> Inl (ErrFrontendLinkInvalidType v v))"

definition AddFrontendLinks :: "val \<Rightarrow> User \<Rightarrow> error option \<times> User" where
  "AddFrontendLinks v u =
     (case link_entries v of
        Inl err \<Rightarrow> (Some err, u)
      | Inr entries \<Rightarrow>
          (let m0 = fold (\<lambda>entry m. AList.update entry True m) entries [];
               m = fold (\<lambda>link m. if map_of m link \<noteq> None then AList.update link False m else m)
                     (FrontendLinks u) m0;
               links = fold (\<lambda>entry links. if map_of m entry = Some True then links @ [entry]
                                            else links)
                         entries (FrontendLinks u)
           in (None, u\<lparr>FrontendLinks := links\<rparr>)))"

section \<open>Checkpoints\<close>

text \<open>
  \<^verbatim>\<open>func NewCheckpoint(s string) (*Checkpoint, error)\<close>, lines 806-828. The tokenizer
  \<^verbatim>\<open>cfgutils.DecodeArgs\<close> belongs to another package and is the argument \<open>decodeArgs\<close>.
  \<^verbatim>\<open>args[0]\<close> on an empty slice panics.
\<close>

definition NewCheckpoint :: "(string \<Rightarrow> error + string list) \<Rightarrow> string \<Rightarrow> error + Checkpoint" where
  "NewCheckpoint decodeArgs s =
     (case decodeArgs s of
        Inl err \<Rightarrow> Inl err
      | Inr args \<Rightarrow>
          (case args of
             [] \<Rightarrow> Inl PanicIndexOutOfRange
           | a0 # rest \<Rightarrow>
               if a0 = ''require''
               then (if length args \<noteq> 2 then Inl (Errorf ''must contain two keywords'')
                     else if args ! 1 = ''mfa''
                     then Inr (Checkpoint0\<lparr>Checkpoint.Name := ''Multi-factor authentication'',
                                           Type := ''mfa''\<rparr>)
                     else Inl (Errorf (''unsupported require keyword: '' @ args ! 1)))
               else Inl (Errorf (''unsupported keyword: '' @ a0))))"

text \<open>
  \<^verbatim>\<open>func NewCheckpoints(v interface{}) ([]*Checkpoint, error)\<close>, lines 771-803:
  \<open>checkpoint_entries\<close> is the type switch of lines 774-790, \<open>checkpoint_loop\<close> the loop of
  lines 791-798 with its index \<open>i\<close>. A panic of \<^verbatim>\<open>NewCheckpoint\<close> is not an error value and
  passes through unwrapped.
\<close>

definition checkpoint_entries :: "val \<Rightarrow> error + string list" where
  "checkpoint_entries v =
     (case v of
        VString data \<Rightarrow> Inr ([] @ [data])
      | VStrings data \<Rightarrow> Inr data
      | VList data \<Rightarrow> append_strings (\<lambda>entry. ErrCheckpointInvalidType v v) [] data
      | _ \<Rightarrow> Inl (ErrCheckpointInvalidType v v))"

fun checkpoint_loop ::
  "(string \<Rightarrow> error + string list) \<Rightarrow> nat \<Rightarrow> string list \<Rightarrow> Checkpoint list \<Rightarrow> error + Checkpoint list"
where
  "checkpoint_loop decodeArgs i [] checkpoints = Inr checkpoints"
| "checkpoint_loop decodeArgs i (entry # entries) checkpoints =
     (case NewCheckpoint decodeArgs entry of
        Inl err \<Rightarrow>
          (if err = PanicIndexOutOfRange then Inl PanicIndexOutOfRange
           else Inl (ErrCheckpointInvalidInput entry err))
      | Inr c \<Rightarrow>
          checkpoint_loop decodeArgs (Suc i) entries
            (checkpoints @ [c\<lparr>Checkpoint.ID := int i\<rparr>]))"

definition NewCheckpoints :: "(string \<Rightarrow> error + string list) \<Rightarrow> val \<Rightarrow> error + Checkpoint list" where
  "NewCheckpoints decodeArgs v =
     (case checkpoint_entries v of
        Inl err \<Rightarrow> Inl err
      | Inr entries \<Rightarrow>
          (case checkpoint_loop decodeArgs 0 entries [] of
             Inl err \<Rightarrow> Inl err
           | Inr checkpoints \<Rightarrow>
               if length checkpoints < 1 then Inl ErrCheckpointEmpty else Inr checkpoints))"

text \<open>
  Modelled from the spec: \<^verbatim>\<open>cfgutils.DecodeArgs\<close>, of the package \<^verbatim>\<open>pkg/utils/cfgutils\<close>, whose
  source is not among the files of the package \<^verbatim>\<open>user\<close>. Section 4.3 of the specification
  says that each directive string is tokenized "into space-separated, quote-aware
  arguments": a space outside double quotes ends an argument, a double quote opens or
  closes a quoted stretch in which a space is an ordinary character, and a quote left
  open is an error.
\<close>

fun tokens :: "bool \<Rightarrow> string \<Rightarrow> string \<Rightarrow> string list option" where
  "tokens quoted cur [] = (if quoted then None else Some [cur])"
| "tokens quoted cur (ch # s) =
     (if ch = CHR 0x22 then tokens (\<not> quoted) cur s
      else if ch = CHR '' '' \<and> \<not> quoted then map_option ((#) cur) (tokens False [] s)
      else tokens quoted (cur @ [ch]) s)"

definition DecodeArgs :: "string \<Rightarrow> error + string list" where
  "DecodeArgs s = (case tokens False [] s of None \<Rightarrow> Inl (ErrDecode s) | Some args \<Rightarrow> Inr args)"

section \<open>Auxiliary definitions for the proofs\<close>

text \<open>The checkpoint that the directive \<^verbatim>\<open>require mfa\<close> yields at position \<open>i\<close>.\<close>

definition mfa_checkpoint :: "nat \<Rightarrow> Checkpoint" where
  "mfa_checkpoint i = \<lparr>Checkpoint.ID = int i, Checkpoint.Name = ''Multi-factor authentication'',
     Type = ''mfa'', Parameters = [], Passed = False, FailedAttempts = 0\<rparr>"

text \<open>
  A block keeps a quantity of the local variables when every successful run of the block
  leaves it as it was. \<open>roles_of\<close>, \<open>aud_of\<close> and \<open>access_of\<close> are the quantities followed through
  the blocks; \<open>seeded\<close> is the default of lines 681-684.
\<close>

definition keeps :: "(locals \<Rightarrow> 'a) \<Rightarrow> (locals \<Rightarrow> error + locals) \<Rightarrow> bool" where
  "keeps f b = (\<forall>s s'. b s = Inr s' \<longrightarrow> f s' = f s)"

definition roles_of :: "locals \<Rightarrow> string list" where
  "roles_of = (\<lambda>(c, mkv, tkv). Roles c)"

definition aud_of :: "locals \<Rightarrow> string list \<times> val option \<times> val option" where
  "aud_of = (\<lambda>(c, mkv, tkv). (Audience c, map_of mkv ''aud'', map_of tkv ''aud''))"

definition seeded :: "string list \<Rightarrow> string list" where
  "seeded roles = (if roles = [] then [''anonymous'', ''guest''] else roles)"

text \<open>
  The access paths of a claims record and of a user, as the dictionary they are kept in;
  \<open>top_paths\<close> and \<open>acl_paths\<close> are the paths that the two sources of the input name.
  \<open>no_json\<close> stands for the decoder where the argument is a dictionary already, which the
  decoder never sees: it rejects every string.
\<close>

definition access_of :: "locals \<Rightarrow> AccessListClaim option" where
  "access_of = (\<lambda>(c, mkv, tkv). AccessList c)"

definition access_paths :: "Claims \<Rightarrow> gomap" where
  "access_paths c =
     (case AccessList c of None \<Rightarrow> []
      | Some al \<Rightarrow> (case Paths al of None \<Rightarrow> [] | Some ps \<Rightarrow> ps))"

definition user_paths :: "User \<Rightarrow> gomap" where
  "user_paths u = (case Claims u of None \<Rightarrow> [] | Some c \<Rightarrow> access_paths c)"

definition top_paths :: "gomap \<Rightarrow> string set" where
  "top_paths m = (case map_of m ''paths'' of Some (VList xs) \<Rightarrow> {k. VString k \<in> set xs} | _ \<Rightarrow> {})"

definition acl_paths :: "gomap \<Rightarrow> string set" where
  "acl_paths m =
     (case map_of m ''acl'' of
        Some (VMap acl) \<Rightarrow>
          (case map_of acl ''paths'' of
             Some (VMap d) \<Rightarrow> fst ` set d
           | Some (VList xs) \<Rightarrow> {k. VString k \<in> set xs}
           | _ \<Rightarrow> {})
      | _ \<Rightarrow> {})"

text \<open>
  The blocks of the fields that \<open>NewUser\<close> reads before \<^verbatim>\<open>app_metadata\<close> (lines 266-446) and before
  \<^verbatim>\<open>realm_access\<close> (lines 266-478).
\<close>

definition fields_before_app_metadata :: "gomap \<Rightarrow> (locals \<Rightarrow> error + locals) list" where
  "fields_before_app_metadata m =
     [blk_aud m, blk_exp m, blk_jti m, blk_iat m, blk_iss m, blk_nbf m, blk_sub m,
      blk_email m, blk_name m, blk_roles m]"

definition fields_before_realm_access :: "gomap \<Rightarrow> (locals \<Rightarrow> error + locals) list" where
  "fields_before_realm_access m = fields_before_app_metadata m @ [blk_app_metadata m]"

definition no_json :: "string \<Rightarrow> error + gomap" where
  "no_json s = Inl (ErrDecode s)"

section \<open>The loops over slices\<close>

lemma append_strings_bad:
  "\<exists>x\<in>set xs. \<forall>s. x \<noteq> VString s \<Longrightarrow> \<exists>x. append_strings err acc xs = Inl (err x)"
  by (induction xs arbitrary: acc) (auto split: val.splits)

lemma append_strings_Inr:
  "append_strings err acc xs = Inr r \<Longrightarrow> map VString r = map VString acc @ xs"
  by (induction xs arbitrary: acc) (auto split: val.splits)

lemma append_strings_ok:
  "append_strings err acc (map VString ss) = Inr (acc @ ss)"
  by (induction ss arbitrary: acc) auto

lemma append_all_eq [simp]: "append_all acc xs = acc @ xs"
  by (induction xs arbitrary: acc) auto

section \<open>Validity of claims\<close>

text \<open>
  Claim C1, as the code has it: \<open>Valid\<close> succeeds exactly when the current time is at or
  before the expiration time stamp, in the signed order of \<^verbatim>\<open>int64\<close>, and fails with the
  expired-token error exactly when the time stamp lies in the past. An expiration of zero
  is not special: such a record is valid only while the clock reads zero or less.
\<close>

theorem Valid_expired_iff:
  "(Valid now c = None \<longleftrightarrow> now \<le>s ExpiresAt c) \<and>
   (Valid now c = Some ErrExpiredToken \<longleftrightarrow> ExpiresAt c <s now) \<and>
   (Valid now (c\<lparr>ExpiresAt := 0\<rparr>) = None \<longleftrightarrow> now \<le>s 0)"
  by (auto simp: Valid_def)

text \<open>
  With the expiration left at its zero value and the clock at 1700000000 seconds, \<open>Valid\<close>
  returns the expired-token error.
\<close>

theorem Valid_zero_expiry_counterexample:
  "Valid 1700000000 Claims0 = Some ErrExpiredToken"
  by (simp add: Valid_def Claims0_def word_sless_alt)

section \<open>Frontend links\<close>

text \<open>
  Claim C10: whenever \<open>AddFrontendLinks\<close> returns an error the user is unchanged. An
  argument that is neither a string, a slice of strings nor a generic slice is rejected
  with the frontend-link type error, a generic slice with an element that is not a string
  with the checkpoint type error the source names there; in both cases the user, and so
  the list of links, is the one the call started from.
\<close>

theorem AddFrontendLinks_error_keeps_links:
  "(fst (AddFrontendLinks v u) \<noteq> None \<longrightarrow> snd (AddFrontendLinks v u) = u) \<and>
   ((\<forall>s. v \<noteq> VString s) \<and> (\<forall>ss. v \<noteq> VStrings ss) \<and> (\<forall>xs. v \<noteq> VList xs) \<longrightarrow>
      AddFrontendLinks v u = (Some (ErrFrontendLinkInvalidType v v), u)) \<and>
   ((\<exists>x\<in>set xs. \<forall>s. x \<noteq> VString s) \<longrightarrow>
      AddFrontendLinks (VList xs) u =
        (Some (ErrCheckpointInvalidType (VList xs) (VList xs)), u))"
proof (intro conjI impI)
  assume "fst (AddFrontendLinks v u) \<noteq> None"
  then show "snd (AddFrontendLinks v u) = u"
    by (auto simp: AddFrontendLinks_def Let_def split: sum.splits)
next
  assume "(\<forall>s. v \<noteq> VString s) \<and> (\<forall>ss. v \<noteq> VStrings ss) \<and> (\<forall>xs. v \<noteq> VList xs)"
  then have "link_entries v = Inl (ErrFrontendLinkInvalidType v v)"
    by (cases v) (auto simp: link_entries_def)
  then show "AddFrontendLinks v u = (Some (ErrFrontendLinkInvalidType v v), u)"
    by (simp add: AddFrontendLinks_def)
next
  assume "\<exists>x\<in>set xs. \<forall>s. x \<noteq> VString s"
  from append_strings_bad [OF this, of "\<lambda>entry. ErrCheckpointInvalidType (VList xs) (VList xs)" "[]"]
  have "link_entries (VList xs) = Inl (ErrCheckpointInvalidType (VList xs) (VList xs))"
    by (auto simp: link_entries_def)
  then show "AddFrontendLinks (VList xs) u =
        (Some (ErrCheckpointInvalidType (VList xs) (VList xs)), u)"
    by (simp add: AddFrontendLinks_def)
qed

text \<open>
  The two rejections on a user whose list holds the link a: a boolean, and a generic list
  whose second element is nil.
\<close>

theorem AddFrontendLinks_error_keeps_links_witness:
  "AddFrontendLinks (VBool True) (User0\<lparr>FrontendLinks := [''a'']\<rparr>) =
     (Some (ErrFrontendLinkInvalidType (VBool True) (VBool True)), User0\<lparr>FrontendLinks := [''a'']\<rparr>) \<and>
   AddFrontendLinks (VList [VString ''b'', VNil]) (User0\<lparr>FrontendLinks := [''a'']\<rparr>) =
     (Some (ErrCheckpointInvalidType (VList [VString ''b'', VNil]) (VList [VString ''b'', VNil])),
      User0\<lparr>FrontendLinks := [''a'']\<rparr>) \<and>
   snd (AddFrontendLinks (VList [VString ''b'', VNil]) (User0\<lparr>FrontendLinks := [''a'']\<rparr>)) =
      User0\<lparr>FrontendLinks := [''a'']\<rparr>"
  using AddFrontendLinks_error_keeps_links
    [of "VBool True" "User0\<lparr>FrontendLinks := [''a'']\<rparr>" "[VString ''b'', VNil]"]
    AddFrontendLinks_error_keeps_links
    [of "VList [VString ''b'', VNil]" "User0\<lparr>FrontendLinks := [''a'']\<rparr>" "[]"]
  by simp
lemma marks_new:
  "map_of (fold (\<lambda>entry m. AList.update entry True m) es m0) =
     (\<lambda>k. if k \<in> set es then Some True else map_of m0 k)"
  by (induction es arbitrary: m0) (auto simp: update_conv' fun_eq_iff)

lemma marks_old:
  "map_of (fold (\<lambda>link m. if map_of m link \<noteq> None then AList.update link False m else m) old m) =
     (\<lambda>k. if k \<in> set old \<and> map_of m k \<noteq> None then Some False else map_of m k)"
  by (induction old arbitrary: m) (auto simp: update_conv' fun_eq_iff)

lemma fold_append_if:
  "fold (\<lambda>entry links. if P entry then links @ [entry] else links) es acc = acc @ filter P es"
  by (induction es arbitrary: acc) auto

lemma AddFrontendLinks_Inr:
  assumes "link_entries v = Inr es"
  shows "AddFrontendLinks v u =
    (None, u\<lparr>FrontendLinks := FrontendLinks u @ filter (\<lambda>e. e \<notin> set (FrontendLinks u)) es\<rparr>)"
proof -
  have "filter (\<lambda>entry. map_of (fold (\<lambda>link m. if map_of m link \<noteq> None then AList.update link False m else m)
                     (FrontendLinks u) (fold (\<lambda>entry m. AList.update entry True m) es [])) entry = Some True) es
        = filter (\<lambda>e. e \<notin> set (FrontendLinks u)) es"
  proof (rule filter_cong [OF refl])
    fix x assume "x \<in> set es"
    then show "(map_of (fold (\<lambda>link m. if map_of m link \<noteq> None then AList.update link False m else m)
                     (FrontendLinks u) (fold (\<lambda>entry m. AList.update entry True m) es [])) x = Some True)
               = (x \<notin> set (FrontendLinks u))"
      unfolding marks_old marks_new by simp
  qed
  then show ?thesis
    using assms by (simp add: AddFrontendLinks_def Let_def fold_append_if)
qed

text \<open>
  What \<open>AddFrontendLinks\<close> does with an accepted batch: the existing links stay in place, as
  a prefix of the new list, and the entries that the list did not hold before the call are
  appended in the order of the batch. A list and a batch that are both free of repetitions
  give a list free of repetitions; adding the same batch a second time changes nothing;
  and adding a, b and then b, c to an empty list gives a, b, c.
\<close>

theorem AddFrontendLinks_union:
  "(link_entries v = Inr es \<longrightarrow>
      AddFrontendLinks v u =
        (None, u\<lparr>FrontendLinks :=
                   FrontendLinks u @ filter (\<lambda>e. e \<notin> set (FrontendLinks u)) es\<rparr>)) \<and>
   (link_entries v = Inr es \<and> distinct (FrontendLinks u) \<and> distinct es \<longrightarrow>
      distinct (FrontendLinks (snd (AddFrontendLinks v u)))) \<and>
   (link_entries v = Inr es \<longrightarrow>
      AddFrontendLinks v (snd (AddFrontendLinks v u)) = (None, snd (AddFrontendLinks v u))) \<and>
   FrontendLinks (snd (AddFrontendLinks (VStrings [''b'', ''c''])
     (snd (AddFrontendLinks (VStrings [''a'', ''b'']) (u\<lparr>FrontendLinks := []\<rparr>))))) =
     [''a'', ''b'', ''c'']"
proof (intro conjI impI)
  assume "link_entries v = Inr es"
  then show "AddFrontendLinks v u =
        (None, u\<lparr>FrontendLinks :=
                   FrontendLinks u @ filter (\<lambda>e. e \<notin> set (FrontendLinks u)) es\<rparr>)"
    by (rule AddFrontendLinks_Inr)
next
  assume "link_entries v = Inr es \<and> distinct (FrontendLinks u) \<and> distinct es"
  then show "distinct (FrontendLinks (snd (AddFrontendLinks v u)))"
    by (auto simp: AddFrontendLinks_Inr)
next
  assume a: "link_entries v = Inr es"
  have "filter (\<lambda>e. e \<notin> set (FrontendLinks u) \<and> (e \<in> set (FrontendLinks u) \<or> e \<notin> set es)) es = []"
    by (auto simp: filter_empty_conv)
  then show "AddFrontendLinks v (snd (AddFrontendLinks v u)) = (None, snd (AddFrontendLinks v u))"
    by (simp add: AddFrontendLinks_Inr [OF a])
next
  have 1: "link_entries (VStrings [''a'', ''b'']) = Inr [''a'', ''b'']"
    and 2: "link_entries (VStrings [''b'', ''c'']) = Inr [''b'', ''c'']"
    by (simp_all add: link_entries_def)
  show "FrontendLinks (snd (AddFrontendLinks (VStrings [''b'', ''c''])
     (snd (AddFrontendLinks (VStrings [''a'', ''b'']) (u\<lparr>FrontendLinks := []\<rparr>))))) =
     [''a'', ''b'', ''c'']"
    by (simp add: AddFrontendLinks_Inr [OF 1] AddFrontendLinks_Inr [OF 2])
qed

text \<open>
  The batch b, c, a added to the list a, b gives a, b, c, and adding it again changes
  nothing.
\<close>

theorem AddFrontendLinks_union_witness:
  "AddFrontendLinks (VList [VString ''b'', VString ''c'', VString ''a''])
       (User0\<lparr>FrontendLinks := [''a'', ''b'']\<rparr>) =
     (None, User0\<lparr>FrontendLinks := [''a'', ''b'', ''c'']\<rparr>) \<and>
   distinct (FrontendLinks (snd (AddFrontendLinks (VList [VString ''b'', VString ''c'', VString ''a''])
       (User0\<lparr>FrontendLinks := [''a'', ''b'']\<rparr>)))) \<and>
   AddFrontendLinks (VList [VString ''b'', VString ''c'', VString ''a''])
       (snd (AddFrontendLinks (VList [VString ''b'', VString ''c'', VString ''a''])
          (User0\<lparr>FrontendLinks := [''a'', ''b'']\<rparr>))) =
     (None, User0\<lparr>FrontendLinks := [''a'', ''b'', ''c'']\<rparr>)"
proof -
  have e: "link_entries (VList [VString ''b'', VString ''c'', VString ''a'']) =
      Inr [''b'', ''c'', ''a'']"
    by (simp add: link_entries_def)
  note t = AddFrontendLinks_union
      [of "VList [VString ''b'', VString ''c'', VString ''a'']"
          "[''b'', ''c'', ''a'']" "User0\<lparr>FrontendLinks := [''a'', ''b'']\<rparr>"]
  from t e have a: "AddFrontendLinks (VList [VString ''b'', VString ''c'', VString ''a''])
       (User0\<lparr>FrontendLinks := [''a'', ''b'']\<rparr>) =
     (None, User0\<lparr>FrontendLinks := [''a'', ''b'', ''c'']\<rparr>)"
    by simp
  from t e have b: "distinct (FrontendLinks (snd (AddFrontendLinks
       (VList [VString ''b'', VString ''c'', VString ''a''])
       (User0\<lparr>FrontendLinks := [''a'', ''b'']\<rparr>))))"
    by simp
  from t e have "AddFrontendLinks (VList [VString ''b'', VString ''c'', VString ''a''])
       (snd (AddFrontendLinks (VList [VString ''b'', VString ''c'', VString ''a''])
          (User0\<lparr>FrontendLinks := [''a'', ''b'']\<rparr>))) =
     (None, snd (AddFrontendLinks (VList [VString ''b'', VString ''c'', VString ''a''])
          (User0\<lparr>FrontendLinks := [''a'', ''b'']\<rparr>)))"
    by blast
  then have c: "AddFrontendLinks (VList [VString ''b'', VString ''c'', VString ''a''])
       (snd (AddFrontendLinks (VList [VString ''b'', VString ''c'', VString ''a''])
          (User0\<lparr>FrontendLinks := [''a'', ''b'']\<rparr>))) =
     (None, User0\<lparr>FrontendLinks := [''a'', ''b'', ''c'']\<rparr>)"
    by (simp add: a)
  from a b c show ?thesis by simp
qed

text \<open>
  Claim C4, at the input that shows the defect: the batch a, a added to a fresh user gives
  the list a, a, so the entry repeated within the batch is appended twice and no error is
  returned, while the same entry added in two calls is appended once.
\<close>

theorem AddFrontendLinks_repeat_in_batch:
  "AddFrontendLinks (VStrings [''a'', ''a'']) User0 =
     (None, User0\<lparr>FrontendLinks := [''a'', ''a'']\<rparr>) \<and>
   AddFrontendLinks (VStrings [''a''])
       (snd (AddFrontendLinks (VStrings [''a'']) User0)) =
     (None, User0\<lparr>FrontendLinks := [''a'']\<rparr>)"
  by (auto simp add: AddFrontendLinks_def link_entries_def User0_def update_conv' Let_def)

section \<open>Checkpoints: properties\<close>

lemma NewCheckpoint_Inr_iff:
  "NewCheckpoint dec s = Inr c \<longleftrightarrow>
     dec s = Inr [''require'', ''mfa''] \<and>
     c = Checkpoint0\<lparr>Checkpoint.Name := ''Multi-factor authentication'', Type := ''mfa''\<rparr>"
proof (cases "dec s")
  case (Inl e)
  then show ?thesis by (simp add: NewCheckpoint_def)
next
  case (Inr args)
  show ?thesis
  proof (cases args)
    case Nil
    with Inr show ?thesis by (simp add: NewCheckpoint_def)
  next
    case (Cons a0 rest)
    show ?thesis
    proof (cases rest)
      case Nil
      with Inr Cons show ?thesis by (simp add: NewCheckpoint_def)
    next
      case (Cons a1 rest')
      with Inr \<open>args = a0 # rest\<close> show ?thesis
        by (cases rest') (auto simp: NewCheckpoint_def)
    qed
  qed
qed

lemma checkpoint_loop_Inr:
  "checkpoint_loop dec i es cps = Inr r \<Longrightarrow>
     r = cps @ map (\<lambda>k. mfa_checkpoint (i + k)) [0..<length es] \<and>
     (\<forall>e\<in>set es. dec e = Inr [''require'', ''mfa''])"
proof (induction es arbitrary: i cps)
  case Nil
  then show ?case by simp
next
  case (Cons e es)
  from Cons.prems obtain c where c: "NewCheckpoint dec e = Inr c"
    and r: "checkpoint_loop dec (Suc i) es (cps @ [c\<lparr>Checkpoint.ID := int i\<rparr>]) = Inr r"
    by (auto split: sum.splits if_splits)
  from c have d: "dec e = Inr [''require'', ''mfa'']"
    and c': "c\<lparr>Checkpoint.ID := int i\<rparr> = mfa_checkpoint i"
    by (simp_all add: NewCheckpoint_Inr_iff mfa_checkpoint_def Checkpoint0_def)
  have "map (\<lambda>k. mfa_checkpoint (i + k)) [0..<Suc (length es)] =
        mfa_checkpoint i # map (\<lambda>k. mfa_checkpoint (Suc i + k)) [0..<length es]"
    by (simp add: upt_conv_Cons map_Suc_upt [symmetric] del: upt_Suc)
  with Cons.IH [OF r] d c' show ?case by simp
qed

lemma checkpoint_loop_fails:
  "\<exists>e\<in>set es. isl (NewCheckpoint dec e) \<Longrightarrow> isl (checkpoint_loop dec i es cps)"
  by (induction es arbitrary: i cps) (auto split: sum.splits)

lemma DecodeArgs_examples:
  "DecodeArgs ''require mfa'' = Inr [''require'', ''mfa'']"
  "DecodeArgs ''require otp'' = Inr [''require'', ''otp'']"
  "DecodeArgs ''require'' = Inr [''require'']"
  "DecodeArgs ''permit mfa'' = Inr [''permit'', ''mfa'']"
  "DecodeArgs (''require '' @ [CHR 0x22] @ ''mfa'') = Inl (ErrDecode (''require '' @ [CHR 0x22] @ ''mfa''))"
  by (simp_all add: DecodeArgs_def)

text \<open>
  Claim C7: a directive that the tokenizer splits into \<^verbatim>\<open>require\<close> and \<^verbatim>\<open>mfa\<close> gives exactly
  one checkpoint, named "Multi-factor authentication", of type "mfa", with sequence id 0.
  A directive with another argument after \<^verbatim>\<open>require\<close>, with a number of arguments other
  than two, or with another keyword fails, each with its own message, and so does one the
  tokenizer rejects; one failing directive fails the whole call. An input with no entries
  fails with the empty-checkpoint error. The checkpoints of a successful call are as many
  as the entries of the input, and the one at position \<open>i\<close> has the sequence id \<open>i\<close>.
\<close>

theorem NewCheckpoints_directives:
  "(decodeArgs s = Inr [''require'', ''mfa''] \<longrightarrow>
      NewCheckpoints decodeArgs (VString s) =
        Inr [\<lparr>Checkpoint.ID = 0, Checkpoint.Name = ''Multi-factor authentication'',
              Type = ''mfa'', Parameters = [], Passed = False, FailedAttempts = 0\<rparr>]) \<and>
   (decodeArgs s = Inr [''require'', a] \<and> a \<noteq> ''mfa'' \<longrightarrow>
      NewCheckpoint decodeArgs s = Inl (Errorf (''unsupported require keyword: '' @ a))) \<and>
   (decodeArgs s = Inr (''require'' # rest) \<and> length rest \<noteq> 1 \<longrightarrow>
      NewCheckpoint decodeArgs s = Inl (Errorf ''must contain two keywords'')) \<and>
   (decodeArgs s = Inr (k # rest) \<and> k \<noteq> ''require'' \<longrightarrow>
      NewCheckpoint decodeArgs s = Inl (Errorf (''unsupported keyword: '' @ k))) \<and>
   (decodeArgs s = Inl err \<longrightarrow> NewCheckpoint decodeArgs s = Inl err) \<and>
   (checkpoint_entries v = Inr entries \<and> (\<exists>e\<in>set entries. isl (NewCheckpoint decodeArgs e)) \<longrightarrow>
      isl (NewCheckpoints decodeArgs v)) \<and>
   (checkpoint_entries v = Inr [] \<longrightarrow> NewCheckpoints decodeArgs v = Inl ErrCheckpointEmpty) \<and>
   (NewCheckpoints decodeArgs v = Inr cs \<longrightarrow>
      cs \<noteq> [] \<and> (\<exists>es. checkpoint_entries v = Inr es \<and> length cs = length es) \<and>
      (\<forall>i<length cs. cs ! i =
         \<lparr>Checkpoint.ID = int i, Checkpoint.Name = ''Multi-factor authentication'',
          Type = ''mfa'', Parameters = [], Passed = False, FailedAttempts = 0\<rparr>))"
proof (intro conjI impI)
  assume "decodeArgs s = Inr [''require'', ''mfa'']"
  then show "NewCheckpoints decodeArgs (VString s) =
        Inr [\<lparr>Checkpoint.ID = 0, Checkpoint.Name = ''Multi-factor authentication'',
              Type = ''mfa'', Parameters = [], Passed = False, FailedAttempts = 0\<rparr>]"
    by (simp add: NewCheckpoints_def checkpoint_entries_def NewCheckpoint_def Checkpoint0_def)
next
  assume "decodeArgs s = Inr [''require'', a] \<and> a \<noteq> ''mfa''"
  then show "NewCheckpoint decodeArgs s = Inl (Errorf (''unsupported require keyword: '' @ a))"
    by (simp add: NewCheckpoint_def)
next
  assume "decodeArgs s = Inr (''require'' # rest) \<and> length rest \<noteq> 1"
  then show "NewCheckpoint decodeArgs s = Inl (Errorf ''must contain two keywords'')"
    by (simp add: NewCheckpoint_def)
next
  assume "decodeArgs s = Inr (k # rest) \<and> k \<noteq> ''require''"
  then show "NewCheckpoint decodeArgs s = Inl (Errorf (''unsupported keyword: '' @ k))"
    by (simp add: NewCheckpoint_def)
next
  assume "decodeArgs s = Inl err"
  then show "NewCheckpoint decodeArgs s = Inl err"
    by (simp add: NewCheckpoint_def)
next
  assume "checkpoint_entries v = Inr entries \<and> (\<exists>e\<in>set entries. isl (NewCheckpoint decodeArgs e))"
  then show "isl (NewCheckpoints decodeArgs v)"
    using checkpoint_loop_fails [of entries decodeArgs 0 "[]"]
    by (auto simp: NewCheckpoints_def split: sum.splits)
next
  assume "checkpoint_entries v = Inr []"
  then show "NewCheckpoints decodeArgs v = Inl ErrCheckpointEmpty"
    by (simp add: NewCheckpoints_def)
next
  assume a: "NewCheckpoints decodeArgs v = Inr cs"
  then obtain es where es: "checkpoint_entries v = Inr es"
    and l: "checkpoint_loop decodeArgs 0 es [] = Inr cs" and ne: "cs \<noteq> []"
    by (auto simp: NewCheckpoints_def split: sum.splits if_splits)
  from checkpoint_loop_Inr [OF l]
  have cs: "cs = map (\<lambda>k. mfa_checkpoint k) [0..<length es]" by simp
  from ne show "cs \<noteq> []" .
  from es cs show "\<exists>es. checkpoint_entries v = Inr es \<and> length cs = length es" by simp
  from cs show "\<forall>i<length cs. cs ! i =
         \<lparr>Checkpoint.ID = int i, Checkpoint.Name = ''Multi-factor authentication'',
          Type = ''mfa'', Parameters = [], Passed = False, FailedAttempts = 0\<rparr>"
    by (simp add: mfa_checkpoint_def)
qed

text \<open>
  The directives of the specification under the tokenizer \<open>DecodeArgs\<close>: \<^verbatim>\<open>require mfa\<close> gives
  the one checkpoint, \<^verbatim>\<open>require otp\<close>, \<^verbatim>\<open>require\<close> alone, \<^verbatim>\<open>permit mfa\<close> and a directive with an
  open quote fail, an empty list gives the empty-checkpoint error, and two directives get
  the sequence ids 0 and 1.
\<close>

theorem NewCheckpoints_directives_witness:
  "NewCheckpoints DecodeArgs (VString ''require mfa'') =
     Inr [\<lparr>Checkpoint.ID = 0, Checkpoint.Name = ''Multi-factor authentication'',
           Type = ''mfa'', Parameters = [], Passed = False, FailedAttempts = 0\<rparr>] \<and>
   NewCheckpoint DecodeArgs ''require otp'' = Inl (Errorf ''unsupported require keyword: otp'') \<and>
   NewCheckpoint DecodeArgs ''require'' = Inl (Errorf ''must contain two keywords'') \<and>
   NewCheckpoint DecodeArgs ''permit mfa'' = Inl (Errorf ''unsupported keyword: permit'') \<and>
   NewCheckpoint DecodeArgs (''require '' @ [CHR 0x22] @ ''mfa'') =
     Inl (ErrDecode (''require '' @ [CHR 0x22] @ ''mfa'')) \<and>
   isl (NewCheckpoints DecodeArgs (VString ''require otp'')) \<and>
   isl (NewCheckpoints DecodeArgs (VString ''require'')) \<and>
   NewCheckpoints DecodeArgs (VList []) = Inl ErrCheckpointEmpty \<and>
   NewCheckpoints DecodeArgs (VStrings [''require mfa'', ''require mfa'']) =
     Inr [\<lparr>Checkpoint.ID = 0, Checkpoint.Name = ''Multi-factor authentication'',
           Type = ''mfa'', Parameters = [], Passed = False, FailedAttempts = 0\<rparr>,
          \<lparr>Checkpoint.ID = 1, Checkpoint.Name = ''Multi-factor authentication'',
           Type = ''mfa'', Parameters = [], Passed = False, FailedAttempts = 0\<rparr>]"
proof -
  note d = DecodeArgs_examples
  have 1: "NewCheckpoints DecodeArgs (VString ''require mfa'') =
     Inr [\<lparr>Checkpoint.ID = 0, Checkpoint.Name = ''Multi-factor authentication'',
           Type = ''mfa'', Parameters = [], Passed = False, FailedAttempts = 0\<rparr>]"
    using NewCheckpoints_directives [where decodeArgs = DecodeArgs and s = "''require mfa''"] d
    by simp
  have 2: "NewCheckpoint DecodeArgs ''require otp'' = Inl (Errorf ''unsupported require keyword: otp'')"
    using NewCheckpoints_directives
      [where decodeArgs = DecodeArgs and s = "''require otp''" and a = "''otp''"] d
    by simp
  have 3: "NewCheckpoint DecodeArgs ''require'' = Inl (Errorf ''must contain two keywords'')"
    using NewCheckpoints_directives
      [where decodeArgs = DecodeArgs and s = "''require''" and rest = "[]"] d
    by simp
  have 4: "NewCheckpoint DecodeArgs ''permit mfa'' = Inl (Errorf ''unsupported keyword: permit'')"
    using NewCheckpoints_directives
      [where decodeArgs = DecodeArgs and s = "''permit mfa''" and k = "''permit''"
         and rest = "[''mfa'']"] d
    by simp
  have 5: "NewCheckpoint DecodeArgs (''require '' @ [CHR 0x22] @ ''mfa'') =
     Inl (ErrDecode (''require '' @ [CHR 0x22] @ ''mfa''))"
    using NewCheckpoints_directives
      [where decodeArgs = DecodeArgs and s = "''require '' @ [CHR 0x22] @ ''mfa''"
         and err = "ErrDecode (''require '' @ [CHR 0x22] @ ''mfa'')"] d
    by simp
  have 6: "isl (NewCheckpoints DecodeArgs (VString ''require otp''))"
    using NewCheckpoints_directives
      [where decodeArgs = DecodeArgs and v = "VString ''require otp''"
         and entries = "[''require otp'']"] 2
    by (simp add: checkpoint_entries_def)
  have 7: "isl (NewCheckpoints DecodeArgs (VString ''require''))"
    using NewCheckpoints_directives
      [where decodeArgs = DecodeArgs and v = "VString ''require''"
         and entries = "[''require'']"] 3
    by (simp add: checkpoint_entries_def)
  have 8: "NewCheckpoints DecodeArgs (VList []) = Inl ErrCheckpointEmpty"
    using NewCheckpoints_directives [where decodeArgs = DecodeArgs and v = "VList []"]
    by (simp add: checkpoint_entries_def)
  have e: "NewCheckpoints DecodeArgs (VStrings [''require mfa'', ''require mfa'']) =
     Inr [\<lparr>Checkpoint.ID = 0, Checkpoint.Name = ''Multi-factor authentication'',
           Type = ''mfa'', Parameters = [], Passed = False, FailedAttempts = 0\<rparr>,
          \<lparr>Checkpoint.ID = 1, Checkpoint.Name = ''Multi-factor authentication'',
           Type = ''mfa'', Parameters = [], Passed = False, FailedAttempts = 0\<rparr>]"
    by (simp add: NewCheckpoints_def checkpoint_entries_def NewCheckpoint_def Checkpoint0_def d)
  have 9: "[\<lparr>Checkpoint.ID = 0, Checkpoint.Name = ''Multi-factor authentication'',
           Type = ''mfa'', Parameters = [], Passed = False, FailedAttempts = 0\<rparr>,
          \<lparr>Checkpoint.ID = 1, Checkpoint.Name = ''Multi-factor authentication'',
           Type = ''mfa'', Parameters = [], Passed = False, FailedAttempts = 0\<rparr>] \<noteq> []"
    using NewCheckpoints_directives
      [where decodeArgs = DecodeArgs and v = "VStrings [''require mfa'', ''require mfa'']"
         and cs = "[\<lparr>Checkpoint.ID = 0, Checkpoint.Name = ''Multi-factor authentication'',
           Type = ''mfa'', Parameters = [], Passed = False, FailedAttempts = 0\<rparr>,
          \<lparr>Checkpoint.ID = 1, Checkpoint.Name = ''Multi-factor authentication'',
           Type = ''mfa'', Parameters = [], Passed = False, FailedAttempts = 0\<rparr>]"] e
    by blast
  from 1 2 3 4 5 6 7 8 e 9 show ?thesis by blast
qed

section \<open>NewUser: the blocks and what they keep\<close>

lemma run_blocks_append:
  "run_blocks (xs @ ys) s = (case run_blocks xs s of Inl e \<Rightarrow> Inl e | Inr s' \<Rightarrow> run_blocks ys s')"
  by (induction xs arbitrary: s) (auto split: sum.splits)

lemma run_blocks_keeps:
  "list_all (keeps f) bs \<Longrightarrow> run_blocks bs s = Inr s' \<Longrightarrow> f s' = f s"
  by (induction bs arbitrary: s) (auto simp: keeps_def split: sum.splits)

lemmas blk_defs = blk_aud_def blk_exp_def blk_jti_def blk_iat_def blk_iss_def blk_nbf_def
  blk_sub_def blk_email_def blk_name_def blk_roles_def blk_app_metadata_def
  blk_realm_access_def blk_scopes_def blk_paths_def blk_acl_def blk_acl_projections_def
  blk_origin_def blk_org_def blk_addr_def blk_picture_def blk_metadata_def blk_username_def

lemma add_path_Roles [simp]: "Roles (add_path p c) = Roles c"
  and add_path_Audience [simp]: "Audience (add_path p c) = Audience c"
  by (simp_all add: add_path_def Let_def)

lemma fold_add_path_frame [simp]:
  "Roles (fold add_path ps c) = Roles c" "Audience (fold add_path ps c) = Audience c"
  by (induction ps arbitrary: c) auto

lemma add_paths_frame:
  "add_paths xs c = Inr c' \<Longrightarrow> Roles c' = Roles c \<and> Audience c' = Audience c"
  by (induction xs arbitrary: c) (auto split: val.splits)

lemma keeps_roles_of:
  "keeps roles_of (blk_aud m)" "keeps roles_of (blk_exp m)" "keeps roles_of (blk_jti m)"
  "keeps roles_of (blk_iat m)" "keeps roles_of (blk_iss m)" "keeps roles_of (blk_nbf m)"
  "keeps roles_of (blk_sub m)" "keeps roles_of (blk_email m)" "keeps roles_of (blk_name m)"
  "keeps roles_of (blk_scopes m)" "keeps roles_of (blk_paths m)" "keeps roles_of (blk_acl m)"
  "keeps roles_of blk_acl_projections" "keeps roles_of (blk_origin m)"
  "keeps roles_of (blk_org m)" "keeps roles_of (blk_addr m)" "keeps roles_of (blk_picture m)"
  "keeps roles_of (blk_metadata m)" "keeps roles_of (blk_username m)"
  by (auto simp: keeps_def roles_of_def blk_defs dest: add_paths_frame
      split: option.splits val.splits sum.splits list.splits if_splits)

lemma run_blocks_appendE:
  "run_blocks (xs @ ys) s = Inr s' \<Longrightarrow> \<exists>s1. run_blocks xs s = Inr s1 \<and> run_blocks ys s1 = Inr s'"
  by (auto simp: run_blocks_append split: sum.splits)

lemma append_strings_acc:
  "append_strings err acc xs =
     (case append_strings err [] xs of Inl e \<Rightarrow> Inl e | Inr r \<Rightarrow> Inr (acc @ r))"
proof (induction xs arbitrary: acc)
  case Nil
  then show ?case by simp
next
  case (Cons x xs)
  show ?case
  proof (cases x)
    case (VString s)
    then show ?thesis
      using Cons.IH [of "acc @ [s]"] Cons.IH [of "[s]"] by (simp split: sum.splits)
  qed simp_all
qed

lemma app_metadata_roles_acc:
  "app_metadata_roles m acc =
     (case app_metadata_roles m [] of Inl e \<Rightarrow> Inl e | Inr r \<Rightarrow> Inr (acc @ r))"
  using append_strings_acc [of ErrInvalidRole acc]
  by (auto simp: app_metadata_roles_def split: option.splits val.splits sum.splits)

lemma realm_access_roles_acc:
  "realm_access_roles m acc =
     (case realm_access_roles m [] of Inl e \<Rightarrow> Inl e | Inr r \<Rightarrow> Inr (acc @ r))"
  using append_strings_acc [of ErrInvalidRole acc]
  by (auto simp: realm_access_roles_def split: option.splits val.splits sum.splits)

lemma blocks_around_roles:
  "blocks m =
     [blk_aud m, blk_exp m, blk_jti m, blk_iat m, blk_iss m, blk_nbf m, blk_sub m,
      blk_email m, blk_name m] @
     ([blk_roles m, blk_app_metadata m, blk_realm_access m] @
      [blk_scopes m, blk_paths m, blk_acl m, blk_acl_projections, blk_origin m, blk_org m,
       blk_addr m, blk_picture m, blk_metadata m, blk_username m])"
  by (simp add: blocks_def)

lemma role_blocks:
  "run_blocks [blk_roles m, blk_app_metadata m, blk_realm_access m] s1 = Inr s2 \<Longrightarrow>
     \<exists>r1 r2. role_keys [''roles'', ''role'', ''groups'', ''group''] m (roles_of s1) = Inr r1 \<and>
       app_metadata_roles m r1 = Inr r2 \<and> realm_access_roles m r2 = Inr (roles_of s2)"
  by (cases s1)
    (auto simp: blk_roles_def blk_app_metadata_def blk_realm_access_def roles_of_def
      simp del: role_keys.simps split: sum.splits)

lemma roles_collected:
  assumes "run_blocks (blocks m) (Claims0, [], []) = Inr s"
  shows "\<exists>r1 r2. role_keys [''roles'', ''role'', ''groups'', ''group''] m [] = Inr r1 \<and>
       app_metadata_roles m r1 = Inr r2 \<and> realm_access_roles m r2 = Inr (roles_of s)"
proof -
  from assms obtain s1 s2 where
    1: "run_blocks [blk_aud m, blk_exp m, blk_jti m, blk_iat m, blk_iss m, blk_nbf m, blk_sub m,
      blk_email m, blk_name m] (Claims0, [], []) = Inr s1"
    and 2: "run_blocks [blk_roles m, blk_app_metadata m, blk_realm_access m] s1 = Inr s2"
    and 3: "run_blocks [blk_scopes m, blk_paths m, blk_acl m, blk_acl_projections, blk_origin m,
       blk_org m, blk_addr m, blk_picture m, blk_metadata m, blk_username m] s2 = Inr s"
    unfolding blocks_around_roles by (blast dest: run_blocks_appendE)
  have "roles_of s1 = roles_of (Claims0, [], [])"
    by (rule run_blocks_keeps [OF _ 1]) (simp add: keeps_roles_of)
  then have a: "roles_of s1 = []" by (simp add: roles_of_def Claims0_def)
  have b: "roles_of s = roles_of s2"
    by (rule run_blocks_keeps [OF _ 3]) (simp add: keeps_roles_of)
  from role_blocks [OF 2] a b show ?thesis by simp
qed

lemma marks_value:
  "map_of (fold (\<lambda>k r. AList.update k v r) ks r0) =
     (\<lambda>k. if k \<in> set ks then Some v else map_of r0 k)"
  by (induction ks arbitrary: r0) (auto simp: update_conv' fun_eq_iff)

lemma finish_roles:
  "Claims (finish s) = Some ((fst s)\<lparr>Roles := seeded (roles_of s)\<rparr>)"
  "map_of (mkv (finish s)) ''roles'' = Some (VStrings (seeded (roles_of s)))"
  "map_of (tkv (finish s)) ''roles'' = Some (VStrings (seeded (roles_of s)))"
  by (cases s, simp add: finish_def roles_of_def seeded_def Let_def User0_def update_conv')+

lemma finish_rkv:
  "rkv (finish s) = fold (\<lambda>k r. AList.update k (VBool True) r) (seeded (roles_of s)) []"
  by (cases s) (simp add: finish_def roles_of_def seeded_def Let_def User0_def)

lemma finish_rkv_map:
  "map_of (rkv (finish s)) k =
     (if k \<in> set (seeded (roles_of s)) then Some (VBool True) else None)"
  unfolding finish_rkv marks_value by simp

lemma HasRole_iff: "HasRole u qs \<longleftrightarrow> (\<exists>q\<in>set qs. map_of (rkv u) q \<noteq> None)"
  by (induction qs) auto

lemma HasRoles_iff: "HasRoles u qs \<longleftrightarrow> (\<forall>q\<in>set qs. map_of (rkv u) q \<noteq> None)"
  by (induction qs) auto

lemma NewUserMap_Inr:
  assumes "NewUserMap m = Inr u"
  shows "\<exists>s. run_blocks (blocks m) (Claims0, [], []) = Inr s \<and> u = finish s"
proof (cases "run_blocks (blocks m) (Claims0, [], [])")
  case (Inl e)
  with assms show ?thesis by (simp add: NewUserMap_def split: if_splits)
next
  case (Inr s)
  with assms have "u = finish s" by (simp add: NewUserMap_def split: if_splits)
  with Inr have "run_blocks (blocks m) (Claims0, [], []) = Inr s \<and> u = finish s"
    by (rule conjI)
  then show ?thesis by (rule exI)
qed

lemma NewUser_Inr:
  assumes "NewUser unmarshal data = Inr u"
  shows "\<exists>m s. run_blocks (blocks m) (Claims0, [], []) = Inr s \<and> u = finish s"
proof -
  from assms have "\<exists>m. NewUserMap m = Inr u"
    by (cases data) (auto simp: NewUser_def split: sum.splits)
  then obtain m where "NewUserMap m = Inr u" ..
  from NewUserMap_Inr [OF this] show ?thesis by (rule exI)
qed

lemma NewUser_VMap_Inr:
  assumes "NewUser unmarshal (VMap m) = Inr u"
  shows "\<exists>s. run_blocks (blocks m) (Claims0, [], []) = Inr s \<and> u = finish s"
proof -
  from assms have "NewUserMap m = Inr u" by (simp add: NewUser_def)
  then show ?thesis by (rule NewUserMap_Inr)
qed

lemma append_strings_prefix:
  "append_strings err acc xs = Inr r \<Longrightarrow> \<exists>x. r = acc @ x"
  using append_strings_acc [of err acc xs] by (cases "append_strings err [] xs") auto

lemma app_metadata_roles_prefix:
  "app_metadata_roles m acc = Inr r \<Longrightarrow> \<exists>x. r = acc @ x"
  using app_metadata_roles_acc [of m acc] by (cases "app_metadata_roles m []") auto

lemma realm_access_roles_prefix:
  "realm_access_roles m acc = Inr r \<Longrightarrow> \<exists>x. r = acc @ x"
  using realm_access_roles_acc [of m acc] by (cases "realm_access_roles m []") auto

lemma role_keys_prefix:
  "role_keys ks m acc = Inr r \<Longrightarrow> \<exists>x. r = acc @ x"
proof (induction ks arbitrary: acc)
  case Nil
  then show ?case by simp
next
  case (Cons k ks)
  show ?case
  proof (cases "map_of m k")
    case None
    with Cons show ?thesis by simp
  next
    case (Some v)
    with Cons.prems obtain acc' where
      1: "(case v of VList xs \<Rightarrow> append_strings ErrInvalidRole acc xs
           | VStrings xs \<Rightarrow> Inr (append_all acc xs)
           | VString s \<Rightarrow> Inr (append_all acc (Split s))
           | _ \<Rightarrow> Inl (ErrInvalidRoleType v)) = Inr acc'"
      and 2: "role_keys ks m acc' = Inr r"
      by (auto split: sum.splits)
    from 1 have "\<exists>x. acc' = acc @ x"
      by (cases v) (auto dest: append_strings_prefix)
    with Cons.IH [OF 2] show ?thesis by auto
  qed
qed

lemma role_keys_empty_string:
  "k \<in> set ks \<Longrightarrow> map_of m k = Some (VString []) \<Longrightarrow> role_keys ks m acc = Inr r \<Longrightarrow>
     [] \<in> set r"
proof (induction ks arbitrary: acc)
  case Nil
  then show ?case by simp
next
  case (Cons k' ks)
  show ?case
  proof (cases "k' = k")
    case True
    with Cons.prems have "role_keys ks m (acc @ [[]]) = Inr r" by simp
    from role_keys_prefix [OF this] show ?thesis by auto
  next
    case False
    with Cons.prems have k: "k \<in> set ks" by simp
    show ?thesis
    proof (cases "map_of m k'")
      case None
      with Cons.prems have "role_keys ks m acc = Inr r" by simp
      from Cons.IH [OF k Cons.prems(2) this] show ?thesis .
    next
      case (Some v)
      with Cons.prems obtain acc' where "role_keys ks m acc' = Inr r"
        by (auto split: sum.splits)
      from Cons.IH [OF k Cons.prems(2) this] show ?thesis .
    qed
  qed
qed

lemmas NewUser_eval = NewUser_def NewUserMap_def blocks_def blk_defs app_metadata_roles_def
  realm_access_roles_def Claims0_def

section \<open>NewUser: roles\<close>

text \<open>
  Claim C3: when none of the keys \<^verbatim>\<open>roles\<close>, \<^verbatim>\<open>role\<close>, \<^verbatim>\<open>groups\<close>, \<^verbatim>\<open>group\<close> is in the
  dictionary and the two nested sources, run on an empty slice, yield no role, a user that
  \<open>NewUser\<close> returns has exactly the roles anonymous and guest, both projections hold that
  sequence under \<^verbatim>\<open>roles\<close>, and the role index answers for both. Whatever the input, the
  roles of a returned user are never empty.
\<close>

theorem NewUser_default_roles:
  "(map_of m ''roles'' = None \<and> map_of m ''role'' = None \<and> map_of m ''groups'' = None \<and>
    map_of m ''group'' = None \<and>
    app_metadata_roles m [] = Inr [] \<and> realm_access_roles m [] = Inr [] \<and>
    NewUser unmarshal (VMap m) = Inr u \<longrightarrow>
      (\<exists>c. Claims u = Some c \<and> Roles c = [''anonymous'', ''guest'']) \<and>
      map_of (mkv u) ''roles'' = Some (VStrings [''anonymous'', ''guest'']) \<and>
      map_of (tkv u) ''roles'' = Some (VStrings [''anonymous'', ''guest'']) \<and>
      map_of (rkv u) ''anonymous'' = Some (VBool True) \<and>
      map_of (rkv u) ''guest'' = Some (VBool True) \<and>
      HasRole u [''anonymous''] \<and> HasRole u [''guest''] \<and>
      HasRoles u [''anonymous'', ''guest'']) \<and>
   (NewUser unmarshal data = Inr u \<longrightarrow> (\<exists>c. Claims u = Some c \<and> Roles c \<noteq> []))"
proof (intro conjI impI)
  assume "NewUser unmarshal data = Inr u"
  then obtain s where "u = finish s" by (blast dest: NewUser_Inr)
  then show "\<exists>c. Claims u = Some c \<and> Roles c \<noteq> []"
    by (simp add: finish_roles seeded_def)
next
  assume a: "map_of m ''roles'' = None \<and> map_of m ''role'' = None \<and> map_of m ''groups'' = None \<and>
    map_of m ''group'' = None \<and>
    app_metadata_roles m [] = Inr [] \<and> realm_access_roles m [] = Inr [] \<and>
    NewUser unmarshal (VMap m) = Inr u"
  then obtain s where s: "run_blocks (blocks m) (Claims0, [], []) = Inr s" and u: "u = finish s"
    by (blast dest: NewUser_VMap_Inr)
  from a have "role_keys [''roles'', ''role'', ''groups'', ''group''] m [] = Inr []"
    by simp
  with roles_collected [OF s] a have "roles_of s = []"
    by auto
  then have r: "seeded (roles_of s) = [''anonymous'', ''guest'']"
    by (simp add: seeded_def)
  show "\<exists>c. Claims u = Some c \<and> Roles c = [''anonymous'', ''guest'']"
    by (simp add: u finish_roles r)
  show "map_of (mkv u) ''roles'' = Some (VStrings [''anonymous'', ''guest''])"
    by (simp add: u finish_roles r)
  show "map_of (tkv u) ''roles'' = Some (VStrings [''anonymous'', ''guest''])"
    by (simp add: u finish_roles r)
  show "map_of (rkv u) ''anonymous'' = Some (VBool True)"
    by (simp add: u finish_rkv_map r)
  show "map_of (rkv u) ''guest'' = Some (VBool True)"
    by (simp add: u finish_rkv_map r)
  show "HasRole u [''anonymous'']" "HasRole u [''guest'']"
    "HasRoles u [''anonymous'', ''guest'']"
    by (simp_all add: u finish_rkv_map r)
qed

text \<open>
  A dictionary with the subject alone: the user has the two default roles.
\<close>

theorem NewUser_default_roles_witness:
  "\<exists>u. NewUser no_json (VMap [(''sub'', VString ''alice'')]) = Inr u \<and>
     (\<exists>c. Claims u = Some c \<and> Roles c = [''anonymous'', ''guest''] \<and> Roles c \<noteq> []) \<and>
     map_of (mkv u) ''roles'' = Some (VStrings [''anonymous'', ''guest'']) \<and>
     map_of (tkv u) ''roles'' = Some (VStrings [''anonymous'', ''guest'']) \<and>
     HasRole u [''anonymous''] \<and> HasRole u [''guest''] \<and>
     HasRoles u [''anonymous'', ''guest'']"
proof -
  let ?m = "[(''sub'', VString ''alice'')]"
  let ?u = "finish (Claims0\<lparr>Subject := ''alice''\<rparr>, [(''sub'', VString ''alice'')],
    [(''sub'', VString ''alice'')])"
  have e: "NewUser no_json (VMap ?m) = Inr ?u"
    by (simp add: NewUser_eval)
  have h: "map_of ?m ''roles'' = None \<and> map_of ?m ''role'' = None \<and>
    map_of ?m ''groups'' = None \<and> map_of ?m ''group'' = None \<and>
    app_metadata_roles ?m [] = Inr [] \<and> realm_access_roles ?m [] = Inr []"
    by (simp add: app_metadata_roles_def realm_access_roles_def)
  from NewUser_default_roles [of ?m no_json ?u "VMap ?m"] e h
  have "(\<exists>c. Claims ?u = Some c \<and> Roles c = [''anonymous'', ''guest''] \<and> Roles c \<noteq> []) \<and>
     map_of (mkv ?u) ''roles'' = Some (VStrings [''anonymous'', ''guest'']) \<and>
     map_of (tkv ?u) ''roles'' = Some (VStrings [''anonymous'', ''guest'']) \<and>
     HasRole ?u [''anonymous''] \<and> HasRole ?u [''guest''] \<and>
     HasRoles ?u [''anonymous'', ''guest'']"
    by auto
  with e show ?thesis by blast
qed

text \<open>
  Claim C9, as the code has it: splitting the empty string gives the one-element sequence
  holding the empty string. So when one of the four role keys holds the empty string, the roles of a
  returned user are not empty and hold the empty string, they are exactly what the role
  sources yielded (nothing is seeded), and both projections hold them. When that key is
  the only source of roles, the user has exactly the one role, the empty string, and
  neither anonymous nor guest is in the role index.
\<close>

theorem NewUser_empty_role_string:
  "Split '''' = [''''] \<and>
   (k \<in> set [''roles'', ''role'', ''groups'', ''group''] \<and> map_of m k = Some (VString '''') \<and>
    NewUser unmarshal (VMap m) = Inr u \<longrightarrow>
      (\<exists>c. Claims u = Some c \<and> Roles c \<noteq> [] \<and> '''' \<in> set (Roles c) \<and>
         (\<exists>r1 r2. role_keys [''roles'', ''role'', ''groups'', ''group''] m [] = Inr r1 \<and>
            app_metadata_roles m r1 = Inr r2 \<and> realm_access_roles m r2 = Inr (Roles c)) \<and>
         map_of (mkv u) ''roles'' = Some (VStrings (Roles c)) \<and>
         map_of (tkv u) ''roles'' = Some (VStrings (Roles c))) \<and>
      HasRole u ['''']) \<and>
   (k \<in> set [''roles'', ''role'', ''groups'', ''group''] \<and> map_of m k = Some (VString '''') \<and>
    (\<forall>k'\<in>set [''roles'', ''role'', ''groups'', ''group'']. k' \<noteq> k \<longrightarrow> map_of m k' = None) \<and>
    app_metadata_roles m [] = Inr [] \<and> realm_access_roles m [] = Inr [] \<and>
    NewUser unmarshal (VMap m) = Inr u \<longrightarrow>
      (\<exists>c. Claims u = Some c \<and> Roles c = ['''']) \<and>
      map_of (mkv u) ''roles'' = Some (VStrings ['''']) \<and>
      map_of (tkv u) ''roles'' = Some (VStrings ['''']) \<and>
      map_of (rkv u) '''' = Some (VBool True) \<and>
      map_of (rkv u) ''anonymous'' = None \<and> map_of (rkv u) ''guest'' = None \<and>
      \<not> HasRole u [''anonymous'', ''guest''])"
proof (intro conjI impI)
  show "Split '''' = ['''']" by simp
next
  assume a: "k \<in> set [''roles'', ''role'', ''groups'', ''group''] \<and>
    map_of m k = Some (VString '''') \<and> NewUser unmarshal (VMap m) = Inr u"
  then obtain s where s: "run_blocks (blocks m) (Claims0, [], []) = Inr s" and u: "u = finish s"
    by (blast dest: NewUser_VMap_Inr)
  from roles_collected [OF s] obtain r1 r2 where
    r1: "role_keys [''roles'', ''role'', ''groups'', ''group''] m [] = Inr r1"
    and r2: "app_metadata_roles m r1 = Inr r2"
    and r3: "realm_access_roles m r2 = Inr (roles_of s)"
    by blast
  from a r1 have "[] \<in> set r1" by (blast intro: role_keys_empty_string)
  moreover from r2 have "\<exists>x. r2 = r1 @ x"
    by (rule app_metadata_roles_prefix)
  moreover from r3 have "\<exists>x. roles_of s = r2 @ x"
    by (rule realm_access_roles_prefix)
  ultimately have e: "[] \<in> set (roles_of s)" by auto
  then have ne: "roles_of s \<noteq> []" by auto
  then have sd: "seeded (roles_of s) = roles_of s" by (simp add: seeded_def)
  have c: "Claims u = Some ((fst s)\<lparr>Roles := roles_of s\<rparr>)"
    by (simp add: u finish_roles sd)
  show "\<exists>c. Claims u = Some c \<and> Roles c \<noteq> [] \<and> '''' \<in> set (Roles c) \<and>
         (\<exists>r1 r2. role_keys [''roles'', ''role'', ''groups'', ''group''] m [] = Inr r1 \<and>
            app_metadata_roles m r1 = Inr r2 \<and> realm_access_roles m r2 = Inr (Roles c)) \<and>
         map_of (mkv u) ''roles'' = Some (VStrings (Roles c)) \<and>
         map_of (tkv u) ''roles'' = Some (VStrings (Roles c))"
    using c e ne r1 r2 r3 by (simp add: u finish_roles sd)
  show "HasRole u ['''']"
    using e by (simp add: u finish_rkv_map sd)
next
  assume a: "k \<in> set [''roles'', ''role'', ''groups'', ''group''] \<and>
    map_of m k = Some (VString '''') \<and>
    (\<forall>k'\<in>set [''roles'', ''role'', ''groups'', ''group'']. k' \<noteq> k \<longrightarrow> map_of m k' = None) \<and>
    app_metadata_roles m [] = Inr [] \<and> realm_access_roles m [] = Inr [] \<and>
    NewUser unmarshal (VMap m) = Inr u"
  then obtain s where s: "run_blocks (blocks m) (Claims0, [], []) = Inr s" and u: "u = finish s"
    by (blast dest: NewUser_VMap_Inr)
  from a have "role_keys [''roles'', ''role'', ''groups'', ''group''] m [] = Inr ['''']"
    by auto
  moreover from a have "app_metadata_roles m [''''] = Inr ['''']"
    using app_metadata_roles_acc [of m "['''']"] by simp
  moreover from a have "realm_access_roles m [''''] = Inr ['''']"
    using realm_access_roles_acc [of m "['''']"] by simp
  ultimately have r: "roles_of s = ['''']"
    using roles_collected [OF s] by auto
  then have sd: "seeded (roles_of s) = ['''']" by (simp add: seeded_def)
  show "\<exists>c. Claims u = Some c \<and> Roles c = ['''']"
    by (simp add: u finish_roles sd)
  show "map_of (mkv u) ''roles'' = Some (VStrings [''''])"
    "map_of (tkv u) ''roles'' = Some (VStrings [''''])"
    by (simp_all add: u finish_roles sd)
  show "map_of (rkv u) '''' = Some (VBool True)" "map_of (rkv u) ''anonymous'' = None"
    "map_of (rkv u) ''guest'' = None" "\<not> HasRole u [''anonymous'', ''guest'']"
    by (simp_all add: u finish_rkv_map sd)
qed

text \<open>
  A dictionary with a subject and the empty string under \<^verbatim>\<open>roles\<close>: the user has the one
  role, the empty string.
\<close>

theorem NewUser_empty_role_string_witness:
  "\<exists>u. NewUser no_json
          (VMap [(''sub'', VString ''alice''), (''roles'', VString '''')]) = Inr u \<and>
     (\<exists>c. Claims u = Some c \<and> Roles c = [''''] \<and> Roles c \<noteq> [] \<and> '''' \<in> set (Roles c)) \<and>
     map_of (mkv u) ''roles'' = Some (VStrings ['''']) \<and>
     map_of (tkv u) ''roles'' = Some (VStrings ['''']) \<and>
     HasRole u [''''] \<and> \<not> HasRole u [''anonymous'', ''guest'']"
proof -
  let ?m = "[(''sub'', VString ''alice''), (''roles'', VString '''')]"
  let ?u = "finish (Claims0\<lparr>Subject := ''alice'', Roles := ['''']\<rparr>,
    [(''sub'', VString ''alice'')], [(''sub'', VString ''alice'')])"
  have e: "NewUser no_json (VMap ?m) = Inr ?u"
    by (simp add: NewUser_eval)
  have h: "''roles'' \<in> set [''roles'', ''role'', ''groups'', ''group''] \<and>
    map_of ?m ''roles'' = Some (VString '''') \<and>
    (\<forall>k'\<in>set [''roles'', ''role'', ''groups'', ''group'']. k' \<noteq> ''roles'' \<longrightarrow> map_of ?m k' = None) \<and>
    app_metadata_roles ?m [] = Inr [] \<and> realm_access_roles ?m [] = Inr []"
    by (simp add: app_metadata_roles_def realm_access_roles_def)
  from NewUser_empty_role_string [of "''roles''" ?m no_json ?u] e h
  have "(\<exists>c. Claims ?u = Some c \<and> Roles c = [''''] \<and> Roles c \<noteq> [] \<and> '''' \<in> set (Roles c)) \<and>
     map_of (mkv ?u) ''roles'' = Some (VStrings ['''']) \<and>
     map_of (tkv ?u) ''roles'' = Some (VStrings ['''']) \<and>
     HasRole ?u [''''] \<and> \<not> HasRole ?u [''anonymous'', ''guest'']"
    by auto
  with e show ?thesis by blast
qed

text \<open>
  With the empty string under \<^verbatim>\<open>roles\<close> and the group ops under \<^verbatim>\<open>group\<close> the user has two
  roles, the empty string and ops.
\<close>

theorem NewUser_empty_role_string_counterexample:
  "NewUser no_json (VMap [(''roles'', VString ''''), (''group'', VString ''ops'')]) =
     Inr (finish (Claims0\<lparr>Roles := ['''', ''ops'']\<rparr>, [], [])) \<and>
   Claims (finish (Claims0\<lparr>Roles := ['''', ''ops'']\<rparr>, [], [])) =
     Some (Claims0\<lparr>Roles := ['''', ''ops'']\<rparr>)"
  by (simp add: NewUser_eval finish_roles roles_of_def seeded_def)

section \<open>NewUser: the nested role sources\<close>

lemma role_keys_update:
  "k \<notin> set ks \<Longrightarrow> role_keys ks (AList.update k v m) r = role_keys ks m r"
proof (induction ks arbitrary: r)
  case Nil
  then show ?case by simp
next
  case (Cons a ks)
  then have "map_of (AList.update k v m) a = map_of m a" and "k \<notin> set ks"
    by (auto simp: update_conv')
  with Cons.IH show ?case
    by (simp split: option.splits sum.splits)
qed

lemma scope_keys_update:
  "k \<notin> set ks \<Longrightarrow> scope_keys ks (AList.update k v m) r = scope_keys ks m r"
proof (induction ks arbitrary: r)
  case Nil
  then show ?case by simp
next
  case (Cons a ks)
  then have "map_of (AList.update k v m) a = map_of m a" and "k \<notin> set ks"
    by (auto simp: update_conv')
  with Cons.IH show ?case
    by (simp split: option.splits sum.splits)
qed

lemma email_keys_update:
  "k \<notin> set ks \<Longrightarrow> email_keys ks (AList.update k v m) c = email_keys ks m c"
proof (induction ks arbitrary: c)
  case Nil
  then show ?case by simp
next
  case (Cons a ks)
  then have "map_of (AList.update k v m) a = map_of m a" and "k \<notin> set ks"
    by (auto simp: update_conv')
  with Cons.IH show ?case
    by (simp split: option.splits val.splits)
qed

lemma update_realm_access_blocks:
  "blk_aud (AList.update ''realm_access'' v m) = blk_aud m"
  "blk_exp (AList.update ''realm_access'' v m) = blk_exp m"
  "blk_jti (AList.update ''realm_access'' v m) = blk_jti m"
  "blk_iat (AList.update ''realm_access'' v m) = blk_iat m"
  "blk_iss (AList.update ''realm_access'' v m) = blk_iss m"
  "blk_nbf (AList.update ''realm_access'' v m) = blk_nbf m"
  "blk_sub (AList.update ''realm_access'' v m) = blk_sub m"
  "blk_email (AList.update ''realm_access'' v m) = blk_email m"
  "blk_name (AList.update ''realm_access'' v m) = blk_name m"
  "blk_roles (AList.update ''realm_access'' v m) = blk_roles m"
  "blk_app_metadata (AList.update ''realm_access'' v m) = blk_app_metadata m"
  "blk_scopes (AList.update ''realm_access'' v m) = blk_scopes m"
  "blk_paths (AList.update ''realm_access'' v m) = blk_paths m"
  "blk_acl (AList.update ''realm_access'' v m) = blk_acl m"
  "blk_origin (AList.update ''realm_access'' v m) = blk_origin m"
  "blk_org (AList.update ''realm_access'' v m) = blk_org m"
  "blk_addr (AList.update ''realm_access'' v m) = blk_addr m"
  "blk_picture (AList.update ''realm_access'' v m) = blk_picture m"
  "blk_metadata (AList.update ''realm_access'' v m) = blk_metadata m"
  "blk_username (AList.update ''realm_access'' v m) = blk_username m"
  by (simp_all add: blk_defs app_metadata_roles_def update_conv' role_keys_update
      scope_keys_update email_keys_update del: role_keys.simps scope_keys.simps email_keys.simps)

lemma update_app_metadata_blocks:
  "blk_aud (AList.update ''app_metadata'' v m) = blk_aud m"
  "blk_exp (AList.update ''app_metadata'' v m) = blk_exp m"
  "blk_jti (AList.update ''app_metadata'' v m) = blk_jti m"
  "blk_iat (AList.update ''app_metadata'' v m) = blk_iat m"
  "blk_iss (AList.update ''app_metadata'' v m) = blk_iss m"
  "blk_nbf (AList.update ''app_metadata'' v m) = blk_nbf m"
  "blk_sub (AList.update ''app_metadata'' v m) = blk_sub m"
  "blk_email (AList.update ''app_metadata'' v m) = blk_email m"
  "blk_name (AList.update ''app_metadata'' v m) = blk_name m"
  "blk_roles (AList.update ''app_metadata'' v m) = blk_roles m"
  "blk_realm_access (AList.update ''app_metadata'' v m) = blk_realm_access m"
  "blk_scopes (AList.update ''app_metadata'' v m) = blk_scopes m"
  "blk_paths (AList.update ''app_metadata'' v m) = blk_paths m"
  "blk_acl (AList.update ''app_metadata'' v m) = blk_acl m"
  "blk_origin (AList.update ''app_metadata'' v m) = blk_origin m"
  "blk_org (AList.update ''app_metadata'' v m) = blk_org m"
  "blk_addr (AList.update ''app_metadata'' v m) = blk_addr m"
  "blk_picture (AList.update ''app_metadata'' v m) = blk_picture m"
  "blk_metadata (AList.update ''app_metadata'' v m) = blk_metadata m"
  "blk_username (AList.update ''app_metadata'' v m) = blk_username m"
  by (simp_all add: blk_defs realm_access_roles_def update_conv' role_keys_update
      scope_keys_update email_keys_update del: role_keys.simps scope_keys.simps email_keys.simps)

lemma update_not_empty: "length (AList.update k v m) = 0 \<longleftrightarrow> False"
  by (cases m) auto

lemma realm_access_ignored:
  assumes "map_of m ''realm_access'' = Some v"
    and "(\<forall>ra. v \<noteq> VMap ra) \<or>
         (\<exists>ra. v = VMap ra \<and> map_of ra ''roles'' = None) \<or>
         (\<exists>ra r. v = VMap ra \<and> map_of ra ''roles'' = Some r \<and>
            (\<forall>xs. r \<noteq> VList xs) \<and> (\<forall>ss. r \<noteq> VStrings ss))"
  shows "NewUserMap m = NewUserMap (AList.update ''realm_access'' (VMap []) m)"
proof -
  from assms have "realm_access_roles m = (\<lambda>roles. Inr roles)"
    by (auto simp: realm_access_roles_def fun_eq_iff split: val.splits option.splits)
  moreover have "realm_access_roles (AList.update ''realm_access'' (VMap []) m) = (\<lambda>roles. Inr roles)"
    by (simp add: realm_access_roles_def fun_eq_iff update_conv')
  ultimately have "blk_realm_access (AList.update ''realm_access'' (VMap []) m) = blk_realm_access m"
    by (simp add: blk_realm_access_def)
  then have "blocks (AList.update ''realm_access'' (VMap []) m) = blocks m"
    by (simp add: blocks_def update_realm_access_blocks)
  moreover from assms have "m \<noteq> []" by auto
  ultimately show ?thesis
    by (simp add: NewUserMap_def update_not_empty)
qed

lemma app_metadata_ignored:
  assumes "map_of m ''app_metadata'' = Some v"
    and "(\<forall>am. v \<noteq> VMap am) \<or>
         (\<exists>am. v = VMap am \<and> map_of am ''authorization'' = None) \<or>
         (\<exists>am a. v = VMap am \<and> map_of am ''authorization'' = Some a \<and> (\<forall>az. a \<noteq> VMap az)) \<or>
         (\<exists>am az. v = VMap am \<and> map_of am ''authorization'' = Some (VMap az) \<and>
            map_of az ''roles'' = None)"
  shows "NewUserMap m = NewUserMap (AList.update ''app_metadata'' (VMap []) m)"
proof -
  from assms have "app_metadata_roles m = (\<lambda>roles. Inr roles)"
    by (auto simp: app_metadata_roles_def fun_eq_iff split: val.splits option.splits)
  moreover have "app_metadata_roles (AList.update ''app_metadata'' (VMap []) m) = (\<lambda>roles. Inr roles)"
    by (simp add: app_metadata_roles_def fun_eq_iff update_conv')
  ultimately have "blk_app_metadata (AList.update ''app_metadata'' (VMap []) m) = blk_app_metadata m"
    by (simp add: blk_app_metadata_def)
  then have "blocks (AList.update ''app_metadata'' (VMap []) m) = blocks m"
    by (simp add: blocks_def update_app_metadata_blocks)
  moreover from assms have "m \<noteq> []" by auto
  ultimately show ?thesis
    by (simp add: NewUserMap_def update_not_empty)
qed

lemma nested_roles_fail:
  assumes "(\<forall>r. isl (app_metadata_roles m r)) \<or> (\<forall>r. isl (realm_access_roles m r))"
  shows "isl (NewUserMap m)"
proof (cases "NewUserMap m")
  case (Inl e)
  then show ?thesis by simp
next
  case (Inr u)
  then obtain s where "run_blocks (blocks m) (Claims0, [], []) = Inr s"
    by (blast dest: NewUserMap_Inr)
  from roles_collected [OF this] obtain r1 r2 where
    a: "app_metadata_roles m r1 = Inr r2" and b: "realm_access_roles m r2 = Inr (roles_of s)"
    by blast
  from assms show ?thesis
  proof
    assume "\<forall>r. isl (app_metadata_roles m r)"
    then have "isl (app_metadata_roles m r1)" ..
    with a show ?thesis by simp
  next
    assume "\<forall>r. isl (realm_access_roles m r)"
    then have "isl (realm_access_roles m r2)" ..
    with b show ?thesis by simp
  qed
qed

lemma append_strings_first_bad:
  "\<forall>s. x \<noteq> VString s \<Longrightarrow>
     append_strings err acc (map VString ss @ x # rest) = Inl (err x)"
  by (induction ss arbitrary: acc) (auto split: val.splits)

lemma run_blocks_fails_at:
  assumes "\<not> isl (run_blocks pre s0)" and "\<And>s. b s = Inl e"
  shows "run_blocks (pre @ b # rest) s0 = Inl e"
  using assms by (cases "run_blocks pre s0") (simp_all add: run_blocks_append)

lemma blocks_at_app_metadata:
  "blocks m = fields_before_app_metadata m @ blk_app_metadata m #
     [blk_realm_access m, blk_scopes m, blk_paths m, blk_acl m, blk_acl_projections,
      blk_origin m, blk_org m, blk_addr m, blk_picture m, blk_metadata m, blk_username m]"
  by (simp add: blocks_def fields_before_app_metadata_def)

lemma blocks_at_realm_access:
  "blocks m = fields_before_realm_access m @ blk_realm_access m #
     [blk_scopes m, blk_paths m, blk_acl m, blk_acl_projections,
      blk_origin m, blk_org m, blk_addr m, blk_picture m, blk_metadata m, blk_username m]"
  by (simp add: blocks_def fields_before_realm_access_def fields_before_app_metadata_def)

lemma NewUser_fails_at_app_metadata:
  assumes "map_of m ''app_metadata'' = Some v"
    and "\<not> isl (run_blocks (fields_before_app_metadata m) (Claims0, [], []))"
    and "\<And>r. app_metadata_roles m r = Inl e"
  shows "NewUser unmarshal (VMap m) = Inl e"
proof -
  from assms(1) have ne: "m \<noteq> []" by auto
  from assms(3) have "\<And>s. blk_app_metadata m s = Inl e"
    by (simp add: blk_app_metadata_def split: prod.splits)
  from run_blocks_fails_at [OF assms(2) this]
  have "run_blocks (blocks m) (Claims0, [], []) = Inl e"
    unfolding blocks_at_app_metadata .
  with ne show ?thesis by (simp add: NewUser_def NewUserMap_def)
qed

lemma NewUser_fails_at_realm_access:
  assumes "map_of m ''realm_access'' = Some v"
    and "\<not> isl (run_blocks (fields_before_realm_access m) (Claims0, [], []))"
    and "\<And>r. realm_access_roles m r = Inl e"
  shows "NewUser unmarshal (VMap m) = Inl e"
proof -
  from assms(1) have ne: "m \<noteq> []" by auto
  from assms(3) have "\<And>s. blk_realm_access m s = Inl e"
    by (simp add: blk_realm_access_def split: prod.splits)
  from run_blocks_fails_at [OF assms(2) this]
  have "run_blocks (blocks m) (Claims0, [], []) = Inl e"
    unfolding blocks_at_realm_access .
  with ne show ?thesis by (simp add: NewUser_def NewUserMap_def)
qed

lemma nested_role_errors:
  "map_of m ''app_metadata'' = Some (VMap am) \<and> map_of am ''authorization'' = Some (VMap az) \<and>
    map_of az ''roles'' = Some (VList (map VString ss @ x # rest)) \<and> (\<forall>s. x \<noteq> VString s) \<and>
    \<not> isl (run_blocks (fields_before_app_metadata m) (Claims0, [], [])) \<longrightarrow>
      NewUser unmarshal (VMap m) = Inl (ErrInvalidRole x)"
  "map_of m ''app_metadata'' = Some (VMap am) \<and> map_of am ''authorization'' = Some (VMap az) \<and>
    map_of az ''roles'' = Some r \<and> (\<forall>xs. r \<noteq> VList xs) \<and> (\<forall>ss. r \<noteq> VStrings ss) \<and>
    \<not> isl (run_blocks (fields_before_app_metadata m) (Claims0, [], [])) \<longrightarrow>
      NewUser unmarshal (VMap m) = Inl (ErrInvalidAppMetadataRoleType r)"
  "map_of m ''realm_access'' = Some (VMap ra) \<and>
    map_of ra ''roles'' = Some (VList (map VString ss @ x # rest)) \<and> (\<forall>s. x \<noteq> VString s) \<and>
    \<not> isl (run_blocks (fields_before_realm_access m) (Claims0, [], [])) \<longrightarrow>
      NewUser unmarshal (VMap m) = Inl (ErrInvalidRole x)"
proof -
  show "map_of m ''app_metadata'' = Some (VMap am) \<and> map_of am ''authorization'' = Some (VMap az) \<and>
    map_of az ''roles'' = Some (VList (map VString ss @ x # rest)) \<and> (\<forall>s. x \<noteq> VString s) \<and>
    \<not> isl (run_blocks (fields_before_app_metadata m) (Claims0, [], [])) \<longrightarrow>
      NewUser unmarshal (VMap m) = Inl (ErrInvalidRole x)"
  proof
    assume a: "map_of m ''app_metadata'' = Some (VMap am) \<and>
      map_of am ''authorization'' = Some (VMap az) \<and>
      map_of az ''roles'' = Some (VList (map VString ss @ x # rest)) \<and> (\<forall>s. x \<noteq> VString s) \<and>
      \<not> isl (run_blocks (fields_before_app_metadata m) (Claims0, [], []))"
    then have "\<And>r. app_metadata_roles m r = Inl (ErrInvalidRole x)"
      by (simp add: app_metadata_roles_def append_strings_first_bad)
    with a show "NewUser unmarshal (VMap m) = Inl (ErrInvalidRole x)"
      by (intro NewUser_fails_at_app_metadata [of m "VMap am"]) simp_all
  qed
  show "map_of m ''app_metadata'' = Some (VMap am) \<and> map_of am ''authorization'' = Some (VMap az) \<and>
    map_of az ''roles'' = Some r \<and> (\<forall>xs. r \<noteq> VList xs) \<and> (\<forall>ss. r \<noteq> VStrings ss) \<and>
    \<not> isl (run_blocks (fields_before_app_metadata m) (Claims0, [], [])) \<longrightarrow>
      NewUser unmarshal (VMap m) = Inl (ErrInvalidAppMetadataRoleType r)"
  proof
    assume a: "map_of m ''app_metadata'' = Some (VMap am) \<and>
      map_of am ''authorization'' = Some (VMap az) \<and>
      map_of az ''roles'' = Some r \<and> (\<forall>xs. r \<noteq> VList xs) \<and> (\<forall>ss. r \<noteq> VStrings ss) \<and>
      \<not> isl (run_blocks (fields_before_app_metadata m) (Claims0, [], []))"
    then have "\<And>r'. app_metadata_roles m r' = Inl (ErrInvalidAppMetadataRoleType r)"
      by (cases r) (simp_all add: app_metadata_roles_def)
    with a show "NewUser unmarshal (VMap m) = Inl (ErrInvalidAppMetadataRoleType r)"
      by (intro NewUser_fails_at_app_metadata [of m "VMap am"]) simp_all
  qed
  show "map_of m ''realm_access'' = Some (VMap ra) \<and>
    map_of ra ''roles'' = Some (VList (map VString ss @ x # rest)) \<and> (\<forall>s. x \<noteq> VString s) \<and>
    \<not> isl (run_blocks (fields_before_realm_access m) (Claims0, [], [])) \<longrightarrow>
      NewUser unmarshal (VMap m) = Inl (ErrInvalidRole x)"
  proof
    assume a: "map_of m ''realm_access'' = Some (VMap ra) \<and>
      map_of ra ''roles'' = Some (VList (map VString ss @ x # rest)) \<and> (\<forall>s. x \<noteq> VString s) \<and>
      \<not> isl (run_blocks (fields_before_realm_access m) (Claims0, [], []))"
    then have "\<And>r. realm_access_roles m r = Inl (ErrInvalidRole x)"
      by (simp add: realm_access_roles_def append_strings_first_bad)
    with a show "NewUser unmarshal (VMap m) = Inl (ErrInvalidRole x)"
      by (intro NewUser_fails_at_realm_access [of m "VMap ra"]) simp_all
  qed
qed

text \<open>
  Claim C2, as the code has it: an element that is not a string inside the generic list
  under \<^verbatim>\<open>app_metadata\<close>, \<^verbatim>\<open>authorization\<close>, \<^verbatim>\<open>roles\<close> or under \<^verbatim>\<open>realm_access\<close>, \<^verbatim>\<open>roles\<close>
  makes \<open>NewUser\<close> fail, and so does a value under \<^verbatim>\<open>app_metadata\<close>, \<^verbatim>\<open>authorization\<close>,
  \<^verbatim>\<open>roles\<close> that is neither kind of list. When none of the fields read before fails, the
  error is the invalid-role error of the first such element, and for the value that is no
  list the role type error of \<^verbatim>\<open>app_metadata\<close>. What is passed over in silence is a container of
  the wrong shape: when \<^verbatim>\<open>realm_access\<close> is not a dictionary, or its \<^verbatim>\<open>roles\<close> is neither kind
  of list, and when \<^verbatim>\<open>app_metadata\<close> or its \<^verbatim>\<open>authorization\<close> is not a dictionary, the result
  is the one for an empty dictionary under that key.
\<close>

theorem NewUser_nested_role_sources:
  "(map_of m ''app_metadata'' = Some (VMap am) \<and> map_of am ''authorization'' = Some (VMap az) \<and>
    map_of az ''roles'' = Some (VList xs) \<and> (\<exists>x\<in>set xs. \<forall>s. x \<noteq> VString s) \<longrightarrow>
      isl (NewUser unmarshal (VMap m))) \<and>
   (map_of m ''app_metadata'' = Some (VMap am) \<and> map_of am ''authorization'' = Some (VMap az) \<and>
    map_of az ''roles'' = Some r \<and> (\<forall>xs. r \<noteq> VList xs) \<and> (\<forall>ss. r \<noteq> VStrings ss) \<longrightarrow>
      isl (NewUser unmarshal (VMap m))) \<and>
   (map_of m ''realm_access'' = Some (VMap ra) \<and> map_of ra ''roles'' = Some (VList xs) \<and>
    (\<exists>x\<in>set xs. \<forall>s. x \<noteq> VString s) \<longrightarrow>
      isl (NewUser unmarshal (VMap m))) \<and>
   (map_of m ''realm_access'' = Some v \<and>
    ((\<forall>ra. v \<noteq> VMap ra) \<or>
     (\<exists>ra r. v = VMap ra \<and> map_of ra ''roles'' = Some r \<and>
        (\<forall>xs. r \<noteq> VList xs) \<and> (\<forall>ss. r \<noteq> VStrings ss))) \<longrightarrow>
      NewUser unmarshal (VMap m) =
        NewUser unmarshal (VMap (AList.update ''realm_access'' (VMap []) m))) \<and>
   (map_of m ''app_metadata'' = Some v \<and>
    ((\<forall>am. v \<noteq> VMap am) \<or>
     (\<exists>am a. v = VMap am \<and> map_of am ''authorization'' = Some a \<and> (\<forall>az. a \<noteq> VMap az))) \<longrightarrow>
      NewUser unmarshal (VMap m) =
        NewUser unmarshal (VMap (AList.update ''app_metadata'' (VMap []) m))) \<and>
   (map_of m ''app_metadata'' = Some (VMap am) \<and> map_of am ''authorization'' = Some (VMap az) \<and>
    map_of az ''roles'' = Some (VList (map VString ss @ x # rest)) \<and> (\<forall>s. x \<noteq> VString s) \<and>
    \<not> isl (run_blocks (fields_before_app_metadata m) (Claims0, [], [])) \<longrightarrow>
      NewUser unmarshal (VMap m) = Inl (ErrInvalidRole x)) \<and>
   (map_of m ''app_metadata'' = Some (VMap am) \<and> map_of am ''authorization'' = Some (VMap az) \<and>
    map_of az ''roles'' = Some r \<and> (\<forall>xs. r \<noteq> VList xs) \<and> (\<forall>ss. r \<noteq> VStrings ss) \<and>
    \<not> isl (run_blocks (fields_before_app_metadata m) (Claims0, [], [])) \<longrightarrow>
      NewUser unmarshal (VMap m) = Inl (ErrInvalidAppMetadataRoleType r)) \<and>
   (map_of m ''realm_access'' = Some (VMap ra) \<and>
    map_of ra ''roles'' = Some (VList (map VString ss @ x # rest)) \<and> (\<forall>s. x \<noteq> VString s) \<and>
    \<not> isl (run_blocks (fields_before_realm_access m) (Claims0, [], [])) \<longrightarrow>
      NewUser unmarshal (VMap m) = Inl (ErrInvalidRole x))"
proof (intro conjI impI)
  assume a: "map_of m ''app_metadata'' = Some (VMap am) \<and>
    map_of am ''authorization'' = Some (VMap az) \<and>
    map_of az ''roles'' = Some (VList xs) \<and> (\<exists>x\<in>set xs. \<forall>s. x \<noteq> VString s)"
  then have "\<forall>r. isl (app_metadata_roles m r)"
    using append_strings_bad [of xs ErrInvalidRole]
    by (auto simp: app_metadata_roles_def) (metis sum.disc(1))
  then show "isl (NewUser unmarshal (VMap m))"
    by (simp add: NewUser_def nested_roles_fail)
next
  assume a: "map_of m ''app_metadata'' = Some (VMap am) \<and>
    map_of am ''authorization'' = Some (VMap az) \<and>
    map_of az ''roles'' = Some r \<and> (\<forall>xs. r \<noteq> VList xs) \<and> (\<forall>ss. r \<noteq> VStrings ss)"
  then have "\<forall>r. isl (app_metadata_roles m r)"
    by (cases r) (auto simp: app_metadata_roles_def)
  then show "isl (NewUser unmarshal (VMap m))"
    by (simp add: NewUser_def nested_roles_fail)
next
  assume a: "map_of m ''realm_access'' = Some (VMap ra) \<and>
    map_of ra ''roles'' = Some (VList xs) \<and> (\<exists>x\<in>set xs. \<forall>s. x \<noteq> VString s)"
  then have "\<forall>r. isl (realm_access_roles m r)"
    using append_strings_bad [of xs ErrInvalidRole]
    by (auto simp: realm_access_roles_def) (metis sum.disc(1))
  then show "isl (NewUser unmarshal (VMap m))"
    by (simp add: NewUser_def nested_roles_fail)
next
  assume "map_of m ''realm_access'' = Some v \<and>
    ((\<forall>ra. v \<noteq> VMap ra) \<or>
     (\<exists>ra r. v = VMap ra \<and> map_of ra ''roles'' = Some r \<and>
        (\<forall>xs. r \<noteq> VList xs) \<and> (\<forall>ss. r \<noteq> VStrings ss)))"
  then have "NewUserMap m = NewUserMap (AList.update ''realm_access'' (VMap []) m)"
    by (intro realm_access_ignored [of m v]) auto
  then show "NewUser unmarshal (VMap m) =
        NewUser unmarshal (VMap (AList.update ''realm_access'' (VMap []) m))"
    by (simp add: NewUser_def)
next
  assume "map_of m ''app_metadata'' = Some v \<and>
    ((\<forall>am. v \<noteq> VMap am) \<or>
     (\<exists>am a. v = VMap am \<and> map_of am ''authorization'' = Some a \<and> (\<forall>az. a \<noteq> VMap az)))"
  then have "NewUserMap m = NewUserMap (AList.update ''app_metadata'' (VMap []) m)"
    by (intro app_metadata_ignored [of m v]) auto
  then show "NewUser unmarshal (VMap m) =
        NewUser unmarshal (VMap (AList.update ''app_metadata'' (VMap []) m))"
    by (simp add: NewUser_def)
next
  assume "map_of m ''app_metadata'' = Some (VMap am) \<and> map_of am ''authorization'' = Some (VMap az) \<and>
    map_of az ''roles'' = Some (VList (map VString ss @ x # rest)) \<and> (\<forall>s. x \<noteq> VString s) \<and>
    \<not> isl (run_blocks (fields_before_app_metadata m) (Claims0, [], []))"
  then show "NewUser unmarshal (VMap m) = Inl (ErrInvalidRole x)"
    by (rule nested_role_errors(1) [THEN mp])
next
  assume "map_of m ''app_metadata'' = Some (VMap am) \<and> map_of am ''authorization'' = Some (VMap az) \<and>
    map_of az ''roles'' = Some r \<and> (\<forall>xs. r \<noteq> VList xs) \<and> (\<forall>ss. r \<noteq> VStrings ss) \<and>
    \<not> isl (run_blocks (fields_before_app_metadata m) (Claims0, [], []))"
  then show "NewUser unmarshal (VMap m) = Inl (ErrInvalidAppMetadataRoleType r)"
    by (rule nested_role_errors(2) [THEN mp])
next
  assume "map_of m ''realm_access'' = Some (VMap ra) \<and>
    map_of ra ''roles'' = Some (VList (map VString ss @ x # rest)) \<and> (\<forall>s. x \<noteq> VString s) \<and>
    \<not> isl (run_blocks (fields_before_realm_access m) (Claims0, [], []))"
  then show "NewUser unmarshal (VMap m) = Inl (ErrInvalidRole x)"
    by (rule nested_role_errors(3) [THEN mp])
qed

text \<open>
  Nested role lists with the number 5 or a boolean among the elements, and a string where
  the list of roles under \<^verbatim>\<open>authorization\<close> should be, fail; a string for \<^verbatim>\<open>realm_access\<close> and a
  list for \<^verbatim>\<open>authorization\<close> are passed over.
\<close>

theorem NewUser_nested_role_sources_witness:
  "isl (NewUser no_json (VMap [(''sub'', VString ''alice''), (''app_metadata'',
      VMap [(''authorization'', VMap [(''roles'', VList [VString ''admin'', VFloat64 5])])])])) \<and>
   isl (NewUser no_json (VMap [(''sub'', VString ''alice''), (''app_metadata'',
      VMap [(''authorization'', VMap [(''roles'', VString ''admin'')])])])) \<and>
   isl (NewUser no_json (VMap [(''sub'', VString ''alice''), (''realm_access'',
      VMap [(''roles'', VList [VBool True])])])) \<and>
   NewUser no_json (VMap [(''sub'', VString ''alice''), (''realm_access'', VString ''admin'')]) =
     NewUser no_json (VMap [(''sub'', VString ''alice''), (''realm_access'', VMap [])]) \<and>
   NewUser no_json (VMap [(''sub'', VString ''alice''),
       (''app_metadata'', VMap [(''authorization'', VList [VString ''admin''])])]) =
     NewUser no_json (VMap [(''sub'', VString ''alice''), (''app_metadata'', VMap [])]) \<and>
   \<not> isl (NewUser no_json (VMap [(''sub'', VString ''alice''),
       (''realm_access'', VString ''admin'')])) \<and>
   NewUser no_json (VMap [(''sub'', VString ''alice''), (''app_metadata'',
      VMap [(''authorization'', VMap [(''roles'', VList [VString ''admin'', VFloat64 5])])])]) =
     Inl (ErrInvalidRole (VFloat64 5)) \<and>
   NewUser no_json (VMap [(''sub'', VString ''alice''), (''app_metadata'',
      VMap [(''authorization'', VMap [(''roles'', VString ''admin'')])])]) =
     Inl (ErrInvalidAppMetadataRoleType (VString ''admin'')) \<and>
   NewUser no_json (VMap [(''sub'', VString ''alice''), (''realm_access'',
      VMap [(''roles'', VList [VBool True])])]) = Inl (ErrInvalidRole (VBool True))"
proof -
  note ev = fields_before_app_metadata_def fields_before_realm_access_def blk_defs Claims0_def
    app_metadata_roles_def
  have 1: "isl (NewUser no_json (VMap [(''sub'', VString ''alice''), (''app_metadata'',
      VMap [(''authorization'', VMap [(''roles'', VList [VString ''admin'', VFloat64 5])])])]))"
    using NewUser_nested_role_sources [where unmarshal = no_json
      and m = "[(''sub'', VString ''alice''), (''app_metadata'',
        VMap [(''authorization'', VMap [(''roles'', VList [VString ''admin'', VFloat64 5])])])]"
      and am = "[(''authorization'', VMap [(''roles'', VList [VString ''admin'', VFloat64 5])])]"
      and az = "[(''roles'', VList [VString ''admin'', VFloat64 5])]"
      and xs = "[VString ''admin'', VFloat64 5]"]
    by simp
  have 2: "isl (NewUser no_json (VMap [(''sub'', VString ''alice''), (''app_metadata'',
      VMap [(''authorization'', VMap [(''roles'', VString ''admin'')])])]))"
    using NewUser_nested_role_sources [where unmarshal = no_json
      and m = "[(''sub'', VString ''alice''), (''app_metadata'',
        VMap [(''authorization'', VMap [(''roles'', VString ''admin'')])])]"
      and am = "[(''authorization'', VMap [(''roles'', VString ''admin'')])]"
      and az = "[(''roles'', VString ''admin'')]"
      and r = "VString ''admin''"]
    by simp
  have 3: "isl (NewUser no_json (VMap [(''sub'', VString ''alice''), (''realm_access'',
      VMap [(''roles'', VList [VBool True])])]))"
    using NewUser_nested_role_sources [where unmarshal = no_json
      and m = "[(''sub'', VString ''alice''), (''realm_access'',
        VMap [(''roles'', VList [VBool True])])]"
      and ra = "[(''roles'', VList [VBool True])]"
      and xs = "[VBool True]"]
    by simp
  have 4: "NewUser no_json (VMap [(''sub'', VString ''alice''), (''realm_access'', VString ''admin'')]) =
     NewUser no_json (VMap [(''sub'', VString ''alice''), (''realm_access'', VMap [])])"
    using NewUser_nested_role_sources [where unmarshal = no_json
      and m = "[(''sub'', VString ''alice''), (''realm_access'', VString ''admin'')]"
      and v = "VString ''admin''"]
    by simp
  have 5: "NewUser no_json (VMap [(''sub'', VString ''alice''),
       (''app_metadata'', VMap [(''authorization'', VList [VString ''admin''])])]) =
     NewUser no_json (VMap [(''sub'', VString ''alice''), (''app_metadata'', VMap [])])"
    using NewUser_nested_role_sources [where unmarshal = no_json
      and m = "[(''sub'', VString ''alice''),
         (''app_metadata'', VMap [(''authorization'', VList [VString ''admin''])])]"
      and v = "VMap [(''authorization'', VList [VString ''admin''])]"]
    by simp
  have 6: "\<not> isl (NewUser no_json (VMap [(''sub'', VString ''alice''),
       (''realm_access'', VString ''admin'')]))"
    by (simp add: NewUser_eval)
  have 7: "NewUser no_json (VMap [(''sub'', VString ''alice''), (''app_metadata'',
      VMap [(''authorization'', VMap [(''roles'', VList [VString ''admin'', VFloat64 5])])])]) =
     Inl (ErrInvalidRole (VFloat64 5))"
    using NewUser_nested_role_sources [where unmarshal = no_json
      and m = "[(''sub'', VString ''alice''), (''app_metadata'',
        VMap [(''authorization'', VMap [(''roles'', VList [VString ''admin'', VFloat64 5])])])]"
      and am = "[(''authorization'', VMap [(''roles'', VList [VString ''admin'', VFloat64 5])])]"
      and az = "[(''roles'', VList [VString ''admin'', VFloat64 5])]"
      and ss = "[''admin'']" and x = "VFloat64 5" and rest = "[]"]
    by (simp add: ev)
  have 8: "NewUser no_json (VMap [(''sub'', VString ''alice''), (''app_metadata'',
      VMap [(''authorization'', VMap [(''roles'', VString ''admin'')])])]) =
     Inl (ErrInvalidAppMetadataRoleType (VString ''admin''))"
    using NewUser_nested_role_sources [where unmarshal = no_json
      and m = "[(''sub'', VString ''alice''), (''app_metadata'',
        VMap [(''authorization'', VMap [(''roles'', VString ''admin'')])])]"
      and am = "[(''authorization'', VMap [(''roles'', VString ''admin'')])]"
      and az = "[(''roles'', VString ''admin'')]"
      and r = "VString ''admin''"]
    by (simp add: ev)
  have 9: "NewUser no_json (VMap [(''sub'', VString ''alice''), (''realm_access'',
      VMap [(''roles'', VList [VBool True])])]) = Inl (ErrInvalidRole (VBool True))"
    using NewUser_nested_role_sources [where unmarshal = no_json
      and m = "[(''sub'', VString ''alice''), (''realm_access'',
        VMap [(''roles'', VList [VBool True])])]"
      and ra = "[(''roles'', VList [VBool True])]"
      and ss = "[]" and x = "VBool True" and rest = "[]"]
    by (simp add: ev)
  from 1 2 3 4 5 6 7 8 9 show ?thesis by blast
qed

text \<open>
  The number 5 in the list of roles under \<^verbatim>\<open>realm_access\<close>, and under \<^verbatim>\<open>app_metadata\<close> and
  \<^verbatim>\<open>authorization\<close>, is not ignored: \<open>NewUser\<close> returns the invalid-role error for it.
\<close>

theorem NewUser_nested_role_element_counterexample:
  "NewUser no_json (VMap [(''realm_access'', VMap [(''roles'', VList [VFloat64 5])])]) =
     Inl (ErrInvalidRole (VFloat64 5)) \<and>
   NewUser no_json (VMap [(''app_metadata'',
       VMap [(''authorization'', VMap [(''roles'', VList [VFloat64 5])])])]) =
     Inl (ErrInvalidRole (VFloat64 5))"
  by (simp add: NewUser_eval)

section \<open>NewUser: the audience\<close>

lemma keeps_aud_of:
  "keeps aud_of (blk_exp m)"
  "keeps aud_of (blk_jti m)"
  "keeps aud_of (blk_iat m)"
  "keeps aud_of (blk_iss m)"
  "keeps aud_of (blk_nbf m)"
  "keeps aud_of (blk_sub m)"
  "keeps aud_of (blk_email m)"
  "keeps aud_of (blk_name m)"
  "keeps aud_of (blk_paths m)"
  "keeps aud_of (blk_acl m)"
  "keeps aud_of (blk_origin m)"
  "keeps aud_of (blk_org m)"
  "keeps aud_of (blk_addr m)"
  "keeps aud_of (blk_picture m)"
  "keeps aud_of (blk_metadata m)"
  "keeps aud_of (blk_username m)"
  "keeps aud_of blk_acl_projections"
  by (auto simp: keeps_def aud_of_def blk_defs update_conv' dest: add_paths_frame
      split: option.splits val.splits sum.splits if_splits)

lemma keeps_aud_of_keys:
  "keeps aud_of (blk_roles m)" "keeps aud_of (blk_app_metadata m)"
  "keeps aud_of (blk_realm_access m)" "keeps aud_of (blk_scopes m)"
  by (auto simp: keeps_def aud_of_def blk_defs update_conv'
      simp del: role_keys.simps scope_keys.simps split: sum.splits if_splits)

lemma aud_of_written:
  "aud_of (case auds of
             [] \<Rightarrow> (c\<lparr>Audience := auds\<rparr>, [], [])
           | [x] \<Rightarrow> (c\<lparr>Audience := auds\<rparr>, AList.update ''aud'' (VString x) [],
                       AList.update ''aud'' (VStrings auds) [])
           | _ \<Rightarrow> (c\<lparr>Audience := auds\<rparr>, AList.update ''aud'' (VStrings auds) [],
                      AList.update ''aud'' (VStrings auds) [])) =
     (auds,
      (case auds of [] \<Rightarrow> None | [x] \<Rightarrow> Some (VString x) | _ \<Rightarrow> Some (VStrings auds)),
      (case auds of [] \<Rightarrow> None | _ \<Rightarrow> Some (VStrings auds)))"
  by (simp add: aud_of_def split: list.splits)

lemma blk_aud_Inr:
  assumes "map_of m ''aud'' = Some a" and "blk_aud m (c, [], []) = Inr s"
    and "Audience c = []"
  shows "\<exists>auds. (a = VStrings auds \<or> a = VList (map VString auds) \<or>
            (\<exists>x. a = VString x \<and> auds = [x])) \<and>
     s = (case auds of
             [] \<Rightarrow> (c\<lparr>Audience := auds\<rparr>, [], [])
           | [x] \<Rightarrow> (c\<lparr>Audience := auds\<rparr>, AList.update ''aud'' (VString x) [],
                       AList.update ''aud'' (VStrings auds) [])
           | _ \<Rightarrow> (c\<lparr>Audience := auds\<rparr>, AList.update ''aud'' (VStrings auds) [],
                      AList.update ''aud'' (VStrings auds) []))"
proof (cases a)
  case (VString x)
  with assms show ?thesis
    by (intro exI [of _ "[x]"]) (auto simp: blk_aud_def)
next
  case (VStrings xs)
  with assms show ?thesis
    by (intro exI [of _ xs]) (auto simp: blk_aud_def split: list.splits)
next
  case (VList xs)
  with assms obtain r where r: "append_strings ErrInvalidAudience [] xs = Inr r"
    by (auto simp: blk_aud_def split: sum.splits)
  from append_strings_Inr [OF r] have "xs = map VString r" by simp
  with VList assms r show ?thesis
    by (intro exI [of _ r]) (auto simp: blk_aud_def split: list.splits)
qed (use assms in \<open>auto simp: blk_aud_def\<close>)

lemma blk_aud_result:
  assumes "map_of m ''aud'' = Some a" and "blk_aud m (Claims0, [], []) = Inr s"
  shows "\<exists>auds. aud_of s =
      (auds,
       (case auds of [] \<Rightarrow> None | [x] \<Rightarrow> Some (VString x) | _ \<Rightarrow> Some (VStrings auds)),
       (case auds of [] \<Rightarrow> None | _ \<Rightarrow> Some (VStrings auds))) \<and>
    (a = VStrings auds \<or> a = VList (map VString auds) \<or> (\<exists>x. a = VString x \<and> auds = [x]))"
proof -
  have "Audience Claims0 = []" by (simp add: Claims0_def)
  from blk_aud_Inr [OF assms this] obtain auds where
    1: "a = VStrings auds \<or> a = VList (map VString auds) \<or> (\<exists>x. a = VString x \<and> auds = [x])"
    and 2: "s = (case auds of
             [] \<Rightarrow> (Claims0\<lparr>Audience := auds\<rparr>, [], [])
           | [x] \<Rightarrow> (Claims0\<lparr>Audience := auds\<rparr>, AList.update ''aud'' (VString x) [],
                       AList.update ''aud'' (VStrings auds) [])
           | _ \<Rightarrow> (Claims0\<lparr>Audience := auds\<rparr>, AList.update ''aud'' (VStrings auds) [],
                      AList.update ''aud'' (VStrings auds) []))"
    by blast
  from 1 aud_of_written [of auds Claims0] show ?thesis
    unfolding 2 by blast
qed

lemma finish_aud:
  "\<exists>c. Claims (finish s) = Some c \<and>
     (Audience c, map_of (mkv (finish s)) ''aud'', map_of (tkv (finish s)) ''aud'') = aud_of s"
  by (cases s) (simp add: finish_def aud_of_def Let_def User0_def update_conv')

lemma run_blocks_ConsE:
  "run_blocks (b # bs) s = Inr s' \<Longrightarrow> \<exists>s1. b s = Inr s1 \<and> run_blocks bs s1 = Inr s'"
  by (cases "b s") simp_all

lemma blocks_after_aud:
  "blocks m = blk_aud m # [blk_exp m, blk_jti m, blk_iat m, blk_iss m, blk_nbf m,
     blk_sub m, blk_email m, blk_name m, blk_roles m, blk_app_metadata m, blk_realm_access m,
     blk_scopes m, blk_paths m, blk_acl m, blk_acl_projections, blk_origin m, blk_org m,
     blk_addr m, blk_picture m, blk_metadata m, blk_username m]"
  by (simp add: blocks_def)

lemma audience_result:
  assumes "map_of m ''aud'' = Some a" and "run_blocks (blocks m) (Claims0, [], []) = Inr s"
  shows "\<exists>auds. aud_of s =
      (auds,
       (case auds of [] \<Rightarrow> None | [x] \<Rightarrow> Some (VString x) | _ \<Rightarrow> Some (VStrings auds)),
       (case auds of [] \<Rightarrow> None | _ \<Rightarrow> Some (VStrings auds))) \<and>
    (a = VStrings auds \<or> a = VList (map VString auds) \<or> (\<exists>x. a = VString x \<and> auds = [x]))"
proof -
  from assms(2) obtain s1 where
    1: "blk_aud m (Claims0, [], []) = Inr s1"
    and 2: "run_blocks [blk_exp m, blk_jti m, blk_iat m, blk_iss m, blk_nbf m,
     blk_sub m, blk_email m, blk_name m, blk_roles m, blk_app_metadata m, blk_realm_access m,
     blk_scopes m, blk_paths m, blk_acl m, blk_acl_projections, blk_origin m, blk_org m,
     blk_addr m, blk_picture m, blk_metadata m, blk_username m] s1 = Inr s"
    unfolding blocks_after_aud by (blast dest: run_blocks_ConsE)
  have "aud_of s = aud_of s1"
    by (rule run_blocks_keeps [OF _ 2]) (simp add: keeps_aud_of keeps_aud_of_keys)
  with blk_aud_result [OF assms(1) 1] show ?thesis by simp
qed

text \<open>
  Claim C5: when the dictionary has the key \<^verbatim>\<open>aud\<close> and \<open>NewUser\<close> returns a user, the audience
  of its claims is the sequence the value was accepted as (the string alone, the strings of
  the slice, or the strings of the generic list). With no entry the key \<^verbatim>\<open>aud\<close> is in
  neither projection; with exactly one entry the full projection holds the bare string and
  the reduced projection the one-element list; with two entries or more both projections
  hold the list.
\<close>

theorem NewUser_audience:
  "map_of m ''aud'' = Some a \<and> NewUser unmarshal (VMap m) = Inr u \<longrightarrow>
     (\<exists>c. Claims u = Some c \<and>
        (a = VStrings (Audience c) \<or> a = VList (map VString (Audience c)) \<or>
         (\<exists>x. a = VString x \<and> Audience c = [x])) \<and>
        (Audience c = [] \<longrightarrow>
           map_of (mkv u) ''aud'' = None \<and> map_of (tkv u) ''aud'' = None) \<and>
        (\<forall>x. Audience c = [x] \<longrightarrow>
           map_of (mkv u) ''aud'' = Some (VString x) \<and>
           map_of (tkv u) ''aud'' = Some (VStrings [x])) \<and>
        (2 \<le> length (Audience c) \<longrightarrow>
           map_of (mkv u) ''aud'' = Some (VStrings (Audience c)) \<and>
           map_of (tkv u) ''aud'' = Some (VStrings (Audience c))))"
  (is "_ \<longrightarrow> ?concl")
proof
  assume a: "map_of m ''aud'' = Some a \<and> NewUser unmarshal (VMap m) = Inr u"
  then obtain s where s: "run_blocks (blocks m) (Claims0, [], []) = Inr s" and u: "u = finish s"
    by (blast dest: NewUser_VMap_Inr)
  from a audience_result [OF _ s] obtain auds where
    1: "aud_of s =
      (auds,
       (case auds of [] \<Rightarrow> None | [x] \<Rightarrow> Some (VString x) | _ \<Rightarrow> Some (VStrings auds)),
       (case auds of [] \<Rightarrow> None | _ \<Rightarrow> Some (VStrings auds)))"
    and 2: "a = VStrings auds \<or> a = VList (map VString auds) \<or> (\<exists>x. a = VString x \<and> auds = [x])"
    by blast
  from finish_aud [of s] obtain c where
    c: "Claims u = Some c" and 3: "Audience c = auds"
    and 4: "map_of (mkv u) ''aud'' =
       (case auds of [] \<Rightarrow> None | [x] \<Rightarrow> Some (VString x) | _ \<Rightarrow> Some (VStrings auds))"
    and 5: "map_of (tkv u) ''aud'' = (case auds of [] \<Rightarrow> None | _ \<Rightarrow> Some (VStrings auds))"
    unfolding u 1 by auto
  have "(Audience c = [] \<longrightarrow>
           map_of (mkv u) ''aud'' = None \<and> map_of (tkv u) ''aud'' = None) \<and>
        (\<forall>x. Audience c = [x] \<longrightarrow>
           map_of (mkv u) ''aud'' = Some (VString x) \<and>
           map_of (tkv u) ''aud'' = Some (VStrings [x])) \<and>
        (2 \<le> length (Audience c) \<longrightarrow>
           map_of (mkv u) ''aud'' = Some (VStrings (Audience c)) \<and>
           map_of (tkv u) ''aud'' = Some (VStrings (Audience c)))"
    unfolding 3 4 5 by (cases auds) (auto split: list.splits)
  with c 2 3 show ?concl
    by blast
qed

text \<open>
  One audience given as a string, two given as a generic list, and the empty list.
\<close>

theorem NewUser_audience_witness:
  "\<exists>u1 u2 u0.
     NewUser no_json (VMap [(''aud'', VString ''api'')]) = Inr u1 \<and>
     map_of (mkv u1) ''aud'' = Some (VString ''api'') \<and>
     map_of (tkv u1) ''aud'' = Some (VStrings [''api'']) \<and>
     NewUser no_json (VMap [(''aud'', VList [VString ''api'', VString ''web''])]) = Inr u2 \<and>
     map_of (mkv u2) ''aud'' = Some (VStrings [''api'', ''web'']) \<and>
     map_of (tkv u2) ''aud'' = Some (VStrings [''api'', ''web'']) \<and>
     NewUser no_json (VMap [(''aud'', VList [])]) = Inr u0 \<and>
     map_of (mkv u0) ''aud'' = None \<and> map_of (tkv u0) ''aud'' = None"
proof -
  let ?u1 = "finish (Claims0\<lparr>Audience := [''api'']\<rparr>, [(''aud'', VString ''api'')],
    [(''aud'', VStrings [''api''])])"
  let ?u2 = "finish (Claims0\<lparr>Audience := [''api'', ''web'']\<rparr>,
    [(''aud'', VStrings [''api'', ''web''])], [(''aud'', VStrings [''api'', ''web''])])"
  let ?u0 = "finish (Claims0, [], [])"
  have 1: "NewUser no_json (VMap [(''aud'', VString ''api'')]) = Inr ?u1"
    by (simp add: NewUser_eval)
  have 2: "NewUser no_json (VMap [(''aud'', VList [VString ''api'', VString ''web''])]) = Inr ?u2"
    by (simp add: NewUser_eval)
  have 3: "NewUser no_json (VMap [(''aud'', VList [])]) = Inr ?u0"
    by (simp add: NewUser_eval)
  have "\<exists>c. Claims ?u1 = Some c \<and>
        (VString ''api'' = VStrings (Audience c) \<or> VString ''api'' = VList (map VString (Audience c)) \<or>
         (\<exists>x. VString ''api'' = VString x \<and> Audience c = [x])) \<and>
        (Audience c = [] \<longrightarrow>
           map_of (mkv ?u1) ''aud'' = None \<and> map_of (tkv ?u1) ''aud'' = None) \<and>
        (\<forall>x. Audience c = [x] \<longrightarrow>
           map_of (mkv ?u1) ''aud'' = Some (VString x) \<and>
           map_of (tkv ?u1) ''aud'' = Some (VStrings [x])) \<and>
        (2 \<le> length (Audience c) \<longrightarrow>
           map_of (mkv ?u1) ''aud'' = Some (VStrings (Audience c)) \<and>
           map_of (tkv ?u1) ''aud'' = Some (VStrings (Audience c)))"
    by (rule NewUser_audience [where unmarshal = no_json and m = "[(''aud'', VString ''api'')]"
      and a = "VString ''api''" and u = ?u1, THEN mp]) (simp add: 1)
  then have 4: "map_of (mkv ?u1) ''aud'' = Some (VString ''api'')"
    and 5: "map_of (tkv ?u1) ''aud'' = Some (VStrings [''api''])"
    by auto
  have "\<exists>c. Claims ?u2 = Some c \<and>
        (VList [VString ''api'', VString ''web''] = VStrings (Audience c) \<or>
         VList [VString ''api'', VString ''web''] = VList (map VString (Audience c)) \<or>
         (\<exists>x. VList [VString ''api'', VString ''web''] = VString x \<and> Audience c = [x])) \<and>
        (Audience c = [] \<longrightarrow>
           map_of (mkv ?u2) ''aud'' = None \<and> map_of (tkv ?u2) ''aud'' = None) \<and>
        (\<forall>x. Audience c = [x] \<longrightarrow>
           map_of (mkv ?u2) ''aud'' = Some (VString x) \<and>
           map_of (tkv ?u2) ''aud'' = Some (VStrings [x])) \<and>
        (2 \<le> length (Audience c) \<longrightarrow>
           map_of (mkv ?u2) ''aud'' = Some (VStrings (Audience c)) \<and>
           map_of (tkv ?u2) ''aud'' = Some (VStrings (Audience c)))"
    by (rule NewUser_audience [where unmarshal = no_json
      and m = "[(''aud'', VList [VString ''api'', VString ''web''])]"
      and a = "VList [VString ''api'', VString ''web'']" and u = ?u2, THEN mp]) (simp add: 2)
  then have 6: "map_of (mkv ?u2) ''aud'' = Some (VStrings [''api'', ''web''])"
    and 7: "map_of (tkv ?u2) ''aud'' = Some (VStrings [''api'', ''web''])"
    by auto
  have "\<exists>c. Claims ?u0 = Some c \<and>
        (VList [] = VStrings (Audience c) \<or> VList [] = VList (map VString (Audience c)) \<or>
         (\<exists>x. VList [] = VString x \<and> Audience c = [x])) \<and>
        (Audience c = [] \<longrightarrow>
           map_of (mkv ?u0) ''aud'' = None \<and> map_of (tkv ?u0) ''aud'' = None) \<and>
        (\<forall>x. Audience c = [x] \<longrightarrow>
           map_of (mkv ?u0) ''aud'' = Some (VString x) \<and>
           map_of (tkv ?u0) ''aud'' = Some (VStrings [x])) \<and>
        (2 \<le> length (Audience c) \<longrightarrow>
           map_of (mkv ?u0) ''aud'' = Some (VStrings (Audience c)) \<and>
           map_of (tkv ?u0) ''aud'' = Some (VStrings (Audience c)))"
    by (rule NewUser_audience [where unmarshal = no_json and m = "[(''aud'', VList [])]"
      and a = "VList []" and u = ?u0, THEN mp]) (simp add: 3)
  then have 8: "map_of (mkv ?u0) ''aud'' = None" and 9: "map_of (tkv ?u0) ''aud'' = None"
    by auto
  show ?thesis
    by (intro exI [of _ ?u1] exI [of _ ?u2] exI [of _ ?u0] conjI)
      (rule 1 2 3 4 5 6 7 8 9)+
qed

section \<open>NewUser: access paths\<close>

lemma keeps_access_of:
  "keeps access_of (blk_aud m)" "keeps access_of (blk_exp m)" "keeps access_of (blk_jti m)"
  "keeps access_of (blk_iat m)" "keeps access_of (blk_iss m)" "keeps access_of (blk_nbf m)"
  "keeps access_of (blk_sub m)" "keeps access_of (blk_email m)" "keeps access_of (blk_name m)"
  "keeps access_of blk_acl_projections" "keeps access_of (blk_origin m)"
  "keeps access_of (blk_org m)" "keeps access_of (blk_addr m)" "keeps access_of (blk_picture m)"
  "keeps access_of (blk_metadata m)" "keeps access_of (blk_username m)"
  by (auto simp: keeps_def access_of_def blk_defs
      split: option.splits val.splits sum.splits list.splits if_splits)

lemma keeps_access_of_keys:
  "keeps access_of (blk_roles m)" "keeps access_of (blk_app_metadata m)"
  "keeps access_of (blk_realm_access m)" "keeps access_of (blk_scopes m)"
  by (auto simp: keeps_def access_of_def blk_defs
      simp del: role_keys.simps scope_keys.simps split: sum.splits if_splits)

lemma add_path_map:
  "map_of (access_paths (add_path p c)) = (map_of (access_paths c))(p \<mapsto> VMap [])"
  by (auto simp: access_paths_def add_path_def Let_def update_conv' split: option.splits)

lemma fold_add_path_map:
  "map_of (access_paths (fold add_path ks c)) =
     (\<lambda>k. if k \<in> set ks then Some (VMap []) else map_of (access_paths c) k)"
  by (induction ks arbitrary: c) (auto simp: add_path_map fun_eq_iff)

lemma add_paths_map:
  "add_paths xs c = Inr c' \<Longrightarrow>
     map_of (access_paths c') =
       (\<lambda>k. if VString k \<in> set xs then Some (VMap []) else map_of (access_paths c) k)"
proof (induction xs arbitrary: c)
  case Nil
  then show ?case by simp
next
  case (Cons x xs)
  then obtain p where x: "x = VString p" and r: "add_paths xs (add_path p c) = Inr c'"
    by (cases x) auto
  from Cons.IH [OF r] show ?case
    by (auto simp: x add_path_map fun_eq_iff)
qed

lemma blk_paths_map:
  assumes "blk_paths m (c, mk, tk) = Inr (c', mk', tk')"
  shows "map_of (access_paths c') =
    (\<lambda>k. if k \<in> top_paths m then Some (VMap []) else map_of (access_paths c) k)"
proof (cases "map_of m ''paths''")
  case None
  with assms show ?thesis by (auto simp: blk_paths_def top_paths_def)
next
  case (Some v)
  show ?thesis
  proof (cases v)
    case (VList xs)
    with Some assms have "add_paths xs c = Inr c'"
      by (auto simp: blk_paths_def split: sum.splits)
    from add_paths_map [OF this] Some VList show ?thesis
      by (simp add: top_paths_def)
  qed (use Some assms in \<open>auto simp: blk_paths_def top_paths_def\<close>)
qed

lemma blk_acl_map:
  assumes "blk_acl m (c, mk, tk) = Inr (c', mk', tk')"
  shows "map_of (access_paths c') =
    (\<lambda>k. if k \<in> acl_paths m then Some (VMap []) else map_of (access_paths c) k)"
proof (cases "map_of m ''acl''")
  case None
  with assms show ?thesis by (auto simp: blk_acl_def acl_paths_def)
next
  case (Some v)
  show ?thesis
  proof (cases v)
    case (VMap acl)
    show ?thesis
    proof (cases "map_of acl ''paths''")
      case None
      with Some VMap assms show ?thesis by (auto simp: blk_acl_def acl_paths_def)
    next
      case ps: (Some ps)
      show ?thesis
      proof (cases ps)
        case d: (VMap d)
        with Some VMap ps assms have "c' = fold add_path (map fst d) c"
          by (auto simp: blk_acl_def)
        with Some VMap ps d show ?thesis
          by (simp add: fold_add_path_map acl_paths_def)
      next
        case xs: (VList xs)
        with Some VMap ps assms have "add_paths xs c = Inr c'"
          by (auto simp: blk_acl_def split: sum.splits)
        from add_paths_map [OF this] Some VMap ps xs show ?thesis
          by (simp add: acl_paths_def)
      qed (use Some VMap ps assms in \<open>auto simp: blk_acl_def acl_paths_def\<close>)
    qed
  qed (use Some assms in \<open>auto simp: blk_acl_def acl_paths_def\<close>)
qed

lemma blk_paths_map_fst:
  assumes "blk_paths m s = Inr s'"
  shows "map_of (access_paths (fst s')) =
    (\<lambda>k. if k \<in> top_paths m then Some (VMap []) else map_of (access_paths (fst s)) k)"
proof -
  obtain c mk tk where s: "s = (c, mk, tk)" by (cases s)
  obtain c' mk' tk' where s': "s' = (c', mk', tk')" by (cases s')
  from assms have "blk_paths m (c, mk, tk) = Inr (c', mk', tk')" by (simp add: s s')
  from blk_paths_map [OF this] show ?thesis unfolding s s' fst_conv .
qed

lemma blk_acl_map_fst:
  assumes "blk_acl m s = Inr s'"
  shows "map_of (access_paths (fst s')) =
    (\<lambda>k. if k \<in> acl_paths m then Some (VMap []) else map_of (access_paths (fst s)) k)"
proof -
  obtain c mk tk where s: "s = (c, mk, tk)" by (cases s)
  obtain c' mk' tk' where s': "s' = (c', mk', tk')" by (cases s')
  from assms have "blk_acl m (c, mk, tk) = Inr (c', mk', tk')" by (simp add: s s')
  from blk_acl_map [OF this] show ?thesis unfolding s s' fst_conv .
qed

lemma blocks_around_paths:
  "blocks m =
     [blk_aud m, blk_exp m, blk_jti m, blk_iat m, blk_iss m, blk_nbf m, blk_sub m,
      blk_email m, blk_name m, blk_roles m, blk_app_metadata m, blk_realm_access m,
      blk_scopes m] @
     (blk_paths m # blk_acl m #
      [blk_acl_projections, blk_origin m, blk_org m,
       blk_addr m, blk_picture m, blk_metadata m, blk_username m])"
  by (simp add: blocks_def)

lemma access_of_paths: "access_of s = access_of s' \<Longrightarrow> access_paths (fst s) = access_paths (fst s')"
  by (cases s; cases s') (simp add: access_of_def access_paths_def)

lemma paths_collected:
  assumes "run_blocks (blocks m) (Claims0, [], []) = Inr s"
  shows "map_of (access_paths (fst s)) =
    (\<lambda>k. if k \<in> top_paths m \<union> acl_paths m then Some (VMap []) else None)"
proof -
  from assms obtain s1 where
    1: "run_blocks [blk_aud m, blk_exp m, blk_jti m, blk_iat m, blk_iss m, blk_nbf m, blk_sub m,
      blk_email m, blk_name m, blk_roles m, blk_app_metadata m, blk_realm_access m,
      blk_scopes m] (Claims0, [], []) = Inr s1"
    and r: "run_blocks (blk_paths m # blk_acl m #
      [blk_acl_projections, blk_origin m, blk_org m,
       blk_addr m, blk_picture m, blk_metadata m, blk_username m]) s1 = Inr s"
    unfolding blocks_around_paths by (blast dest: run_blocks_appendE)
  from r obtain s2 where 2: "blk_paths m s1 = Inr s2"
    and r2: "run_blocks (blk_acl m #
      [blk_acl_projections, blk_origin m, blk_org m,
       blk_addr m, blk_picture m, blk_metadata m, blk_username m]) s2 = Inr s"
    by (blast dest: run_blocks_ConsE)
  from r2 obtain s3 where 3: "blk_acl m s2 = Inr s3"
    and 4: "run_blocks [blk_acl_projections, blk_origin m, blk_org m,
       blk_addr m, blk_picture m, blk_metadata m, blk_username m] s3 = Inr s"
    by (blast dest: run_blocks_ConsE)
  have "access_of s1 = access_of (Claims0, [], [])"
    by (rule run_blocks_keeps [OF _ 1]) (simp add: keeps_access_of keeps_access_of_keys)
  then have a: "access_paths (fst s1) = []"
    by (cases s1) (simp add: access_of_def access_paths_def Claims0_def)
  have "access_of s = access_of s3"
    by (rule run_blocks_keeps [OF _ 4]) (simp add: keeps_access_of)
  then have b: "access_paths (fst s) = access_paths (fst s3)"
    by (rule access_of_paths)
  note c = blk_paths_map_fst [OF 2]
  note d = blk_acl_map_fst [OF 3]
  show ?thesis
    unfolding b d c a by (auto simp: fun_eq_iff)
qed

lemma finish_paths: "user_paths (finish s) = access_paths (fst s)"
  by (cases s) (simp add: user_paths_def finish_def Let_def User0_def access_paths_def)

lemma NewUser_paths:
  assumes "NewUser unmarshal (VMap m) = Inr u"
  shows "map_of (user_paths u) =
    (\<lambda>k. if k \<in> top_paths m \<union> acl_paths m then Some (VMap []) else None)"
proof -
  from assms obtain s where s: "run_blocks (blocks m) (Claims0, [], []) = Inr s" and u: "u = finish s"
    by (blast dest: NewUser_VMap_Inr)
  from paths_collected [OF s] show ?thesis
    by (simp add: u finish_paths)
qed

lemma add_path_distinct:
  "distinct (map fst (access_paths c)) \<Longrightarrow> distinct (map fst (access_paths (add_path p c)))"
  by (auto simp: access_paths_def add_path_def Let_def distinct_update split: option.splits)

lemma fold_add_path_distinct:
  "distinct (map fst (access_paths c)) \<Longrightarrow>
     distinct (map fst (access_paths (fold add_path ks c)))"
  by (induction ks arbitrary: c) (auto simp: add_path_distinct)

lemma add_paths_distinct:
  "add_paths xs c = Inr c' \<Longrightarrow> distinct (map fst (access_paths c)) \<Longrightarrow>
     distinct (map fst (access_paths c'))"
  by (induction xs arbitrary: c) (auto simp: add_path_distinct split: val.splits)

lemma blk_paths_distinct:
  assumes "blk_paths m s = Inr s'" and "distinct (map fst (access_paths (fst s)))"
  shows "distinct (map fst (access_paths (fst s')))"
  using assms
  by (cases s)
    (auto simp: blk_paths_def dest: add_paths_distinct split: option.splits val.splits sum.splits)

lemma blk_acl_distinct:
  assumes "blk_acl m s = Inr s'" and "distinct (map fst (access_paths (fst s)))"
  shows "distinct (map fst (access_paths (fst s')))"
  using assms
  by (cases s)
    (auto simp: blk_acl_def fold_add_path_distinct dest: add_paths_distinct
      split: option.splits val.splits sum.splits)

lemma NewUser_paths_distinct:
  assumes "NewUser unmarshal (VMap m) = Inr u"
  shows "distinct (map fst (user_paths u))"
proof -
  from assms obtain s where s: "run_blocks (blocks m) (Claims0, [], []) = Inr s" and u: "u = finish s"
    by (blast dest: NewUser_VMap_Inr)
  from s obtain s1 where
    1: "run_blocks [blk_aud m, blk_exp m, blk_jti m, blk_iat m, blk_iss m, blk_nbf m, blk_sub m,
      blk_email m, blk_name m, blk_roles m, blk_app_metadata m, blk_realm_access m,
      blk_scopes m] (Claims0, [], []) = Inr s1"
    and r: "run_blocks (blk_paths m # blk_acl m #
      [blk_acl_projections, blk_origin m, blk_org m,
       blk_addr m, blk_picture m, blk_metadata m, blk_username m]) s1 = Inr s"
    unfolding blocks_around_paths by (blast dest: run_blocks_appendE)
  from r obtain s2 where 2: "blk_paths m s1 = Inr s2"
    and r2: "run_blocks (blk_acl m #
      [blk_acl_projections, blk_origin m, blk_org m,
       blk_addr m, blk_picture m, blk_metadata m, blk_username m]) s2 = Inr s"
    by (blast dest: run_blocks_ConsE)
  from r2 obtain s3 where 3: "blk_acl m s2 = Inr s3"
    and 4: "run_blocks [blk_acl_projections, blk_origin m, blk_org m,
       blk_addr m, blk_picture m, blk_metadata m, blk_username m] s3 = Inr s"
    by (blast dest: run_blocks_ConsE)
  have "access_of s1 = access_of (Claims0, [], [])"
    by (rule run_blocks_keeps [OF _ 1]) (simp add: keeps_access_of keeps_access_of_keys)
  then have "access_paths (fst s1) = []"
    by (cases s1) (simp add: access_of_def access_paths_def Claims0_def)
  then have "distinct (map fst (access_paths (fst s1)))" by simp
  from blk_acl_distinct [OF 3 blk_paths_distinct [OF 2 this]]
  have d: "distinct (map fst (access_paths (fst s3)))" .
  have "access_of s = access_of s3"
    by (rule run_blocks_keeps [OF _ 4]) (simp add: keeps_access_of)
  then have "access_paths (fst s) = access_paths (fst s3)"
    by (rule access_of_paths)
  with d show ?thesis by (simp add: u finish_paths)
qed

lemma strings_in_list: "{k. VString k \<in> VString ` S} = S"
  by auto

lemmas NewUser_eval_paths = NewUser_eval add_path_def Let_def

text \<open>
  Two dictionaries that give the same paths under \<^verbatim>\<open>acl\<close>, \<^verbatim>\<open>paths\<close>, one as a generic list
  of strings and the other as a dictionary keyed by them, and that agree on the top-level
  \<^verbatim>\<open>paths\<close>, give users with the same map of access paths. A top-level generic list of
  paths together with paths under \<^verbatim>\<open>acl\<close> gives the union of the two: every path of either
  source is a key, each once, and each maps to an empty dictionary.
\<close>

theorem NewUser_access_paths:
  "(map_of m1 ''acl'' = Some (VMap a1) \<and> map_of a1 ''paths'' = Some (VList (map VString ps)) \<and>
    map_of m2 ''acl'' = Some (VMap a2) \<and> map_of a2 ''paths'' = Some (VMap d) \<and>
    fst ` set d = set ps \<and> map_of m1 ''paths'' = map_of m2 ''paths'' \<and>
    NewUser unmarshal (VMap m1) = Inr u1 \<and> NewUser unmarshal (VMap m2) = Inr u2 \<longrightarrow>
      map_of (user_paths u1) = map_of (user_paths u2) \<and>
      fst ` set (user_paths u1) = fst ` set (user_paths u2)) \<and>
   (map_of m ''paths'' = Some (VList (map VString ps1)) \<and> map_of m ''acl'' = Some (VMap a) \<and>
    (map_of a ''paths'' = Some (VList (map VString ps2)) \<or>
     (\<exists>d. map_of a ''paths'' = Some (VMap d) \<and> fst ` set d = set ps2)) \<and>
    NewUser unmarshal (VMap m) = Inr u \<longrightarrow>
      fst ` set (user_paths u) = set ps1 \<union> set ps2 \<and>
      (\<forall>p\<in>set ps1 \<union> set ps2. map_of (user_paths u) p = Some (VMap [])) \<and>
      distinct (map fst (user_paths u)))"
proof (intro conjI impI)
  assume a: "map_of m1 ''acl'' = Some (VMap a1) \<and>
    map_of a1 ''paths'' = Some (VList (map VString ps)) \<and>
    map_of m2 ''acl'' = Some (VMap a2) \<and> map_of a2 ''paths'' = Some (VMap d) \<and>
    fst ` set d = set ps \<and> map_of m1 ''paths'' = map_of m2 ''paths'' \<and>
    NewUser unmarshal (VMap m1) = Inr u1 \<and> NewUser unmarshal (VMap m2) = Inr u2"
  then have "top_paths m1 = top_paths m2"
    by (simp add: top_paths_def)
  moreover from a have "acl_paths m1 = set ps"
    by (simp add: acl_paths_def strings_in_list)
  moreover from a have "acl_paths m2 = set ps"
    by (simp add: acl_paths_def)
  moreover from a have n1: "NewUser unmarshal (VMap m1) = Inr u1"
    and n2: "NewUser unmarshal (VMap m2) = Inr u2"
    by simp_all
  note NewUser_paths [OF n1] NewUser_paths [OF n2]
  ultimately show e: "map_of (user_paths u1) = map_of (user_paths u2)"
    by simp
  have "dom (map_of (user_paths u1)) = dom (map_of (user_paths u2))"
    by (simp only: e)
  then show "fst ` set (user_paths u1) = fst ` set (user_paths u2)"
    by (simp only: dom_map_of_conv_image_fst)
next
  assume a: "map_of m ''paths'' = Some (VList (map VString ps1)) \<and>
    map_of m ''acl'' = Some (VMap a) \<and>
    (map_of a ''paths'' = Some (VList (map VString ps2)) \<or>
     (\<exists>d. map_of a ''paths'' = Some (VMap d) \<and> fst ` set d = set ps2)) \<and>
    NewUser unmarshal (VMap m) = Inr u"
  then have t: "top_paths m = set ps1"
    by (simp add: top_paths_def strings_in_list)
  from a have c: "acl_paths m = set ps2"
    by (auto simp: acl_paths_def strings_in_list)
  from a have n: "NewUser unmarshal (VMap m) = Inr u" by simp
  have p: "map_of (user_paths u) =
      (\<lambda>k. if k \<in> set ps1 \<union> set ps2 then Some (VMap []) else None)"
    using NewUser_paths [OF n] unfolding t c .
  have "dom (map_of (user_paths u)) = set ps1 \<union> set ps2"
    unfolding p by (auto split: if_splits)
  then show "fst ` set (user_paths u) = set ps1 \<union> set ps2"
    by (simp only: dom_map_of_conv_image_fst)
  show "\<forall>p\<in>set ps1 \<union> set ps2. map_of (user_paths u) p = Some (VMap [])"
    unfolding p by simp
  from n show "distinct (map fst (user_paths u))"
    by (rule NewUser_paths_distinct)
qed

text \<open>
  The paths /a and /b under \<^verbatim>\<open>acl\<close> as a list and as a dictionary, and the path /a at the top
  level together with /b and /a under \<^verbatim>\<open>acl\<close>.
\<close>

theorem NewUser_access_paths_witness:
  "\<exists>u1 u2 u.
     NewUser no_json (VMap [(''acl'', VMap [(''paths'', VList [VString ''/a'', VString ''/b''])])]) =
       Inr u1 \<and>
     NewUser no_json (VMap [(''acl'',
         VMap [(''paths'', VMap [(''/b'', VMap []), (''/a'', VMap [])])])]) = Inr u2 \<and>
     map_of (user_paths u1) = map_of (user_paths u2) \<and>
     fst ` set (user_paths u1) = fst ` set (user_paths u2) \<and>
     user_paths u1 = [(''/a'', VMap []), (''/b'', VMap [])] \<and>
     user_paths u2 = [(''/b'', VMap []), (''/a'', VMap [])] \<and>
     NewUser no_json (VMap [(''paths'', VList [VString ''/a'']),
         (''acl'', VMap [(''paths'', VList [VString ''/b'', VString ''/a''])])]) = Inr u \<and>
     fst ` set (user_paths u) = {''/a'', ''/b''} \<and>
     map_of (user_paths u) ''/a'' = Some (VMap []) \<and>
     map_of (user_paths u) ''/b'' = Some (VMap []) \<and>
     distinct (map fst (user_paths u))"
proof -
  let ?m1 = "[(''acl'', VMap [(''paths'', VList [VString ''/a'', VString ''/b''])])]"
  let ?m2 = "[(''acl'', VMap [(''paths'', VMap [(''/b'', VMap []), (''/a'', VMap [])])])]"
  let ?m = "[(''paths'', VList [VString ''/a'']),
         (''acl'', VMap [(''paths'', VList [VString ''/b'', VString ''/a''])])]"
  let ?u1 = "finish (Claims0\<lparr>AccessList :=
        Some \<lparr>Paths = Some [(''/a'', VMap []), (''/b'', VMap [])]\<rparr>\<rparr>,
      [(''acl'', VMap [(''paths'', VMap [(''/a'', VMap []), (''/b'', VMap [])])])],
      [(''acl'', VMap [(''paths'', VMap [(''/a'', VMap []), (''/b'', VMap [])])])])"
  let ?u2 = "finish (Claims0\<lparr>AccessList :=
        Some \<lparr>Paths = Some [(''/b'', VMap []), (''/a'', VMap [])]\<rparr>\<rparr>,
      [(''acl'', VMap [(''paths'', VMap [(''/b'', VMap []), (''/a'', VMap [])])])],
      [(''acl'', VMap [(''paths'', VMap [(''/b'', VMap []), (''/a'', VMap [])])])])"
  let ?u = "finish (Claims0\<lparr>AccessList :=
        Some \<lparr>Paths = Some [(''/a'', VMap []), (''/b'', VMap [])]\<rparr>\<rparr>,
      [(''acl'', VMap [(''paths'', VMap [(''/a'', VMap []), (''/b'', VMap [])])])],
      [(''acl'', VMap [(''paths'', VMap [(''/a'', VMap []), (''/b'', VMap [])])])])"
  have 1: "NewUser no_json (VMap ?m1) = Inr ?u1" by (simp add: NewUser_eval_paths)
  have 2: "NewUser no_json (VMap ?m2) = Inr ?u2" by (simp add: NewUser_eval_paths)
  have 3: "NewUser no_json (VMap ?m) = Inr ?u" by (simp add: NewUser_eval_paths)
  have 4: "map_of (user_paths ?u1) = map_of (user_paths ?u2) \<and>
      fst ` set (user_paths ?u1) = fst ` set (user_paths ?u2)"
    by (rule NewUser_access_paths [where unmarshal = no_json and ?m1.0 = ?m1 and ?m2.0 = ?m2
      and ?a1.0 = "[(''paths'', VList [VString ''/a'', VString ''/b''])]"
      and ?a2.0 = "[(''paths'', VMap [(''/b'', VMap []), (''/a'', VMap [])])]"
      and ps = "[''/a'', ''/b'']" and d = "[(''/b'', VMap []), (''/a'', VMap [])]"
      and ?u1.0 = ?u1 and ?u2.0 = ?u2, THEN conjunct1, THEN mp])
     (simp add: 1 2 insert_commute)
  have 5: "user_paths ?u1 = [(''/a'', VMap []), (''/b'', VMap [])]"
    and 6: "user_paths ?u2 = [(''/b'', VMap []), (''/a'', VMap [])]"
    by (simp_all add: finish_paths access_paths_def)
  have 7: "fst ` set (user_paths ?u) = set [''/a''] \<union> set [''/b'', ''/a''] \<and>
      (\<forall>p\<in>set [''/a''] \<union> set [''/b'', ''/a'']. map_of (user_paths ?u) p = Some (VMap [])) \<and>
      distinct (map fst (user_paths ?u))"
    by (rule NewUser_access_paths [where unmarshal = no_json and m = ?m
      and a = "[(''paths'', VList [VString ''/b'', VString ''/a''])]"
      and ?ps1.0 = "[''/a'']" and ?ps2.0 = "[''/b'', ''/a'']" and u = ?u,
      THEN conjunct2, THEN mp])
     (simp add: 3)
  from 7 have 8: "fst ` set (user_paths ?u) = {''/a'', ''/b''}"
    and 9: "map_of (user_paths ?u) ''/a'' = Some (VMap [])"
    and 10: "map_of (user_paths ?u) ''/b'' = Some (VMap [])"
    and 11: "distinct (map fst (user_paths ?u))"
    by auto
  from 4 have 12: "map_of (user_paths ?u1) = map_of (user_paths ?u2)"
    and 13: "fst ` set (user_paths ?u1) = fst ` set (user_paths ?u2)"
    by (rule conjunct1, rule conjunct2)
  show ?thesis
    by (intro exI [of _ ?u1] exI [of _ ?u2] exI [of _ ?u] conjI)
      (rule 1 2 3 5 6 8 9 10 11 12 13)+
qed

text \<open>
  Claim C6, at the input that shows the defect: the paths /a and /b under \<^verbatim>\<open>acl\<close>, \<^verbatim>\<open>paths\<close>
  as a slice of strings give a user without access paths, and no error, while the same
  paths as the keys of a dictionary give a user with both. A slice of strings under the
  top-level \<^verbatim>\<open>paths\<close> is dropped in the same way, whereas a slice of strings under
  \<^verbatim>\<open>roles\<close> is read.
\<close>

theorem NewUser_access_paths_string_slice:
  "NewUser no_json (VMap [(''acl'', VMap [(''paths'', VStrings [''/a'', ''/b''])])]) =
     Inr (finish (Claims0, [], [])) \<and>
   user_paths (finish (Claims0, [], [])) = [] \<and>
   NewUser no_json (VMap [(''acl'',
       VMap [(''paths'', VMap [(''/a'', VMap []), (''/b'', VMap [])])])]) =
     Inr (finish (Claims0\<lparr>AccessList :=
         Some \<lparr>Paths = Some [(''/a'', VMap []), (''/b'', VMap [])]\<rparr>\<rparr>,
       [(''acl'', VMap [(''paths'', VMap [(''/a'', VMap []), (''/b'', VMap [])])])],
       [(''acl'', VMap [(''paths'', VMap [(''/a'', VMap []), (''/b'', VMap [])])])])) \<and>
   user_paths (finish (Claims0\<lparr>AccessList :=
         Some \<lparr>Paths = Some [(''/a'', VMap []), (''/b'', VMap [])]\<rparr>\<rparr>,
       [(''acl'', VMap [(''paths'', VMap [(''/a'', VMap []), (''/b'', VMap [])])])],
       [(''acl'', VMap [(''paths'', VMap [(''/a'', VMap []), (''/b'', VMap [])])])])) =
     [(''/a'', VMap []), (''/b'', VMap [])] \<and>
   NewUser no_json (VMap [(''paths'', VStrings [''/a'', ''/b''])]) =
     Inr (finish (Claims0, [], [])) \<and>
   NewUser no_json (VMap [(''roles'', VStrings [''/a'', ''/b''])]) =
     Inr (finish (Claims0\<lparr>Roles := [''/a'', ''/b'']\<rparr>, [], [])) \<and>
   Claims (finish (Claims0\<lparr>Roles := [''/a'', ''/b'']\<rparr>, [], [])) =
     Some (Claims0\<lparr>Roles := [''/a'', ''/b'']\<rparr>)"
  by (simp add: NewUser_eval_paths finish_paths access_paths_def finish_roles roles_of_def
      seeded_def)

section \<open>NewUser: the error of the username field\<close>

text \<open>
  Claim C8, at the input that shows the defect: for a \<^verbatim>\<open>username\<close> that is the number 5
  \<open>NewUser\<close> returns the metadata type error, the very error it returns for a \<^verbatim>\<open>metadata\<close>
  that is the number 5, while the neighbouring fields \<^verbatim>\<open>picture\<close> and \<^verbatim>\<open>addr\<close> each return an
  error of their own.
\<close>

theorem NewUser_username_error:
  "NewUser no_json (VMap [(''username'', VFloat64 5)]) =
     Inl (ErrInvalidMetadataClaimType (VFloat64 5)) \<and>
   NewUser no_json (VMap [(''metadata'', VFloat64 5)]) =
     Inl (ErrInvalidMetadataClaimType (VFloat64 5)) \<and>
   NewUser no_json (VMap [(''picture'', VFloat64 5)]) =
     Inl (ErrInvalidPictureClaimType (VFloat64 5)) \<and>
   NewUser no_json (VMap [(''addr'', VFloat64 5)]) = Inl (ErrInvalidAddrType (VFloat64 5))"
  by (simp add: NewUser_eval)

end
